theory Spec2Isabelle
  imports Complex_Main "HOL-Library.Word"
begin

section \<open>Strings\<close>

text \<open>
  A JavaScript string is a sequence of UTF-16 code units. The place names of the program
  are Japanese, so a string is modelled as the list of its code units (natural numbers),
  and an ASCII literal of the source is written with \<open>asc\<close>.
\<close>

type_synonym jstring = "nat list"

abbreviation asc :: "string \<Rightarrow> jstring" where
  "asc s \<equiv> map of_char s"

text \<open>\<open>Array.prototype.join\<close> on an array of strings.\<close>

fun join :: "jstring \<Rightarrow> jstring list \<Rightarrow> jstring" where
  "join sep [] = []"
| "join sep [x] = x"
| "join sep (x # y # ys) = x @ sep @ join sep (y # ys)"

text \<open>
  \<open>String.prototype.split\<close> with a separator of one code unit: the segments between the
  occurrences of the separator, in order; never the empty array.
\<close>

fun split_on :: "nat \<Rightarrow> jstring \<Rightarrow> jstring list" where
  "split_on sep [] = [[]]"
| "split_on sep (c # cs) =
     (if c = sep then [] # split_on sep cs
      else (case split_on sep cs of
              [] \<Rightarrow> [[c]]
            | p # ps \<Rightarrow> (c # p) # ps))"

text \<open>A string is truthy when it is present and not empty.\<close>

definition truthy :: "jstring option \<Rightarrow> bool" where
  "truthy s = (case s of None \<Rightarrow> False | Some v \<Rightarrow> v \<noteq> [])"

definition underscore :: nat where
  "underscore = 0x5F"

definition ideographic_space :: nat where
  "ideographic_space = 0x3000"

section \<open>Objects as dictionaries\<close>

text \<open>
  The dictionaries of the program are plain objects. \<open>obj[k]\<close> is the own property \<open>k\<close>
  when there is one; otherwise, for the names that every object inherits from
  \<open>Object.prototype\<close>, it is an inherited function or object, which is truthy and is
  not a string; otherwise it is \<open>undefined\<close>. A dictionary is the list of its own
  properties in the order of \<open>Object.keys\<close>.
\<close>

definition object_prototype_names :: "jstring list" where
  "object_prototype_names =
     [asc ''constructor'', asc ''__defineGetter__'', asc ''__defineSetter__'',
      asc ''hasOwnProperty'', asc ''__lookupGetter__'', asc ''__lookupSetter__'',
      asc ''isPrototypeOf'', asc ''propertyIsEnumerable'', asc ''toString'',
      asc ''valueOf'', asc ''__proto__'', asc ''toLocaleString'']"

type_synonym dict = "(jstring \<times> jstring) list"

datatype jsvalue = Undefined | Str jstring | Inherited

definition dict_get :: "dict \<Rightarrow> jstring \<Rightarrow> jsvalue" where
  "dict_get d k =
     (case map_of d k of
        Some v \<Rightarrow> Str v
      | None \<Rightarrow> if k \<in> set object_prototype_names then Inherited else Undefined)"

definition hasOwnProperty :: "dict \<Rightarrow> jstring \<Rightarrow> bool" where
  "hasOwnProperty d k = (map_of d k \<noteq> None)"

definition js_truthy :: "jsvalue \<Rightarrow> bool" where
  "js_truthy v = (case v of Undefined \<Rightarrow> False | Str s \<Rightarrow> s \<noteq> [] | Inherited \<Rightarrow> True)"

datatype error = TypeError

section \<open>Regular expressions of the program\<close>

text \<open>
  The patterns of the program are made of \<open>.+?\<close>, single characters and alternatives of
  single characters. A matcher takes the rest of the input and gives the text it
  matched, or \<open>None\<close>; what follows in the pattern is its continuation \<open>k\<close>, so that the
  lazy quantifier tries the shortest repetition first and backtracks to longer ones.
  \<open>.\<close> matches every code unit but the line terminators.
\<close>

definition is_line_terminator :: "nat \<Rightarrow> bool" where
  "is_line_terminator c = (c = 0x0A \<or> c = 0x0D \<or> c = 0x2028 \<or> c = 0x2029)"

definition rx_end :: "jstring \<Rightarrow> jstring option" where
  "rx_end s = Some []"

fun rx_char :: "nat list \<Rightarrow> (jstring \<Rightarrow> jstring option) \<Rightarrow> jstring \<Rightarrow> jstring option" where
  "rx_char cs k [] = None"
| "rx_char cs k (c # rest) =
     (if c \<in> set cs then (case k rest of None \<Rightarrow> None | Some m \<Rightarrow> Some (c # m)) else None)"

fun rx_lazy_dots :: "(jstring \<Rightarrow> jstring option) \<Rightarrow> jstring \<Rightarrow> jstring option" where
  "rx_lazy_dots k [] = None"
| "rx_lazy_dots k (c # rest) =
     (if is_line_terminator c then None
      else (case k rest of
              Some m \<Rightarrow> Some (c # m)
            | None \<Rightarrow> (case rx_lazy_dots k rest of None \<Rightarrow> None | Some m \<Rightarrow> Some (c # m))))"

text \<open>\<open>s.includes(t)\<close>, \<open>s.startsWith(t)\<close>, \<open>s.endsWith(t)\<close>.\<close>

definition startsWith :: "jstring \<Rightarrow> jstring \<Rightarrow> bool" where
  "startsWith s t = (take (length t) s = t)"

definition endsWith :: "jstring \<Rightarrow> jstring \<Rightarrow> bool" where
  "endsWith s t = (length t \<le> length s \<and> drop (length s - length t) s = t)"

fun includes_str :: "jstring \<Rightarrow> jstring \<Rightarrow> bool" where
  "includes_str [] t = (t = [])"
| "includes_str (c # cs) t = (startsWith (c # cs) t \<or> includes_str cs t)"

section \<open>Readings of place names (\<open>getKana\<close>)\<close>

text \<open>\<open>katakanaToHiragana\<close> on a string: the katakana block is shifted by \<open>0x60\<close>.\<close>

definition katakanaToHiragana :: "jstring \<Rightarrow> jstring" where
  "katakanaToHiragana str =
     map (\<lambda>c. if 0x30A1 \<le> c \<and> c \<le> 0x30F6 then c - 0x60 else c) str"

definition fullwidth_left_paren :: nat where
  "fullwidth_left_paren = 0xFF08"

definition fullwidth_right_paren :: nat where
  "fullwidth_right_paren = 0xFF09"

text \<open>
  The pattern of an annotation, at the start of \<open>s\<close>: a full-width left parenthesis,
  \<open>.+?\<close>, a full-width right parenthesis.
\<close>

definition annotationMatch :: "jstring \<Rightarrow> jstring option" where
  "annotationMatch s =
     rx_char [fullwidth_left_paren]
       (rx_lazy_dots (rx_char [fullwidth_right_paren] rx_end)) s"

text \<open>
  \<open>replace\<close> of every match by the empty string, from left to right; \<open>skip\<close> counts the
  code units of the current match that are still to be dropped.
\<close>

fun stripAnnotationsFrom :: "nat \<Rightarrow> jstring \<Rightarrow> jstring" where
  "stripAnnotationsFrom skip [] = []"
| "stripAnnotationsFrom (Suc n) (c # cs) = stripAnnotationsFrom n cs"
| "stripAnnotationsFrom 0 (c # cs) =
     (case annotationMatch (c # cs) of
        Some m \<Rightarrow> stripAnnotationsFrom (length m - 1) cs
      | None \<Rightarrow> c # stripAnnotationsFrom 0 cs)"

definition stripAnnotations :: "jstring \<Rightarrow> jstring" where
  "stripAnnotations s = stripAnnotationsFrom 0 s"

text \<open>The name looked up for a key: the second segment of \<open>pref_name\<close>, or the whole key.\<close>

definition municipalityOf :: "jstring \<Rightarrow> jstring" where
  "municipalityOf kanji =
     (let parts = split_on underscore kanji
      in if length parts > 1 then parts ! 1 else hd parts)"

text \<open>
  \<open>getKana\<close> with the two dictionaries as parameters. A user dictionary with an own
  property named \<open>hasOwnProperty\<close> makes the call of that name throw; an inherited
  value found in the base dictionary is truthy, and \<open>katakanaToHiragana\<close> throws on it,
  since it has no \<open>replace\<close>.
\<close>

definition getKana :: "dict \<Rightarrow> dict \<Rightarrow> jstring \<Rightarrow> error + jstring" where
  "getKana MANUAL_KANA_DICT KANA_DICT kanji =
     (if kanji = [] then Inr []
      else if hasOwnProperty MANUAL_KANA_DICT (asc ''hasOwnProperty'') then Inl TypeError
      else if hasOwnProperty MANUAL_KANA_DICT kanji
        then Inr (the (map_of MANUAL_KANA_DICT kanji))
      else
        (let municipality = municipalityOf kanji;
             first = dict_get KANA_DICT municipality;
             second = dict_get KANA_DICT (stripAnnotations municipality);
             kana = (if js_truthy first then first
                     else if js_truthy second then second else Str [])
         in case kana of
              Str v \<Rightarrow> Inr (katakanaToHiragana v)
            | Inherited \<Rightarrow> Inl TypeError
            | Undefined \<Rightarrow> Inr []))"

section \<open>Municipality of an observation point (\<open>getMunicipality\<close>)\<close>

definition unknown_text :: jstring where
  "unknown_text = [0x4E0D, 0x660E]"

definition unknown_point_text :: jstring where
  "unknown_point_text = [0x89B3, 0x6E2C, 0x70B9, 0x540D, 0x4E0D, 0x660E]"

definition shi :: nat where "shi = 0x5E02"
definition ku :: nat where "ku = 0x533A"
definition machi :: nat where "machi = 0x753A"
definition mura :: nat where "mura = 0x6751"
definition gun :: nat where "gun = 0x90E1"
definition ken :: nat where "ken = 0x770C"

definition irregular_prefectures :: "jstring list" where
  "irregular_prefectures =
     [[0x6771, 0x4EAC, 0x90FD], [0x5317, 0x6D77, 0x9053],
      [0x4EAC, 0x90FD, 0x5E9C], [0x5927, 0x962A, 0x5E9C]]"

text \<open>The first key that the address ends with, or contains followed by a space.\<close>

definition directMatch :: "jstring list \<Rightarrow> jstring \<Rightarrow> jstring option" where
  "directMatch keys addr =
     find (\<lambda>key. includes_str addr key
               \<and> (endsWith addr key \<or> includes_str addr (key @ [0x20]))) keys"

text \<open>
  The address without its prefecture: the given prefecture when the address starts with
  it; otherwise each of the four prefectures not named \<open>ken\<close>, one after the other, and
  then everything up to the first \<open>ken\<close>.
\<close>

definition stripPrefecture :: "jstring \<Rightarrow> jstring \<Rightarrow> jstring" where
  "stripPrefecture addr pref =
     (if startsWith addr pref then drop (length pref) addr
      else
        (let r = foldl (\<lambda>remainingAddr p.
                          if startsWith remainingAddr p then drop (length p) remainingAddr
                          else remainingAddr) addr irregular_prefectures
         in case dropWhile (\<lambda>c. c \<noteq> ken) r of
              [] \<Rightarrow> r
            | c # rest \<Rightarrow> rest))"

definition cityAndWardMatch :: "jstring \<Rightarrow> jstring option" where
  "cityAndWardMatch s = rx_lazy_dots (rx_char [shi] (rx_lazy_dots (rx_char [ku] rx_end))) s"

definition gunMatch :: "jstring \<Rightarrow> jstring option" where
  "gunMatch s = rx_lazy_dots (rx_char [gun] (rx_lazy_dots (rx_char [machi, mura] rx_end))) s"

text \<open>The keys by descending length (the sort is stable), and the first that is a prefix.\<close>

definition sortedKanaKeys :: "jstring list \<Rightarrow> jstring list" where
  "sortedKanaKeys keys = sort_key (\<lambda>k. - int (length k)) keys"

definition forwardMatch :: "jstring list \<Rightarrow> jstring \<Rightarrow> jstring option" where
  "forwardMatch keys remainingAddr =
     find (\<lambda>key. startsWith remainingAddr key) (sortedKanaKeys keys)"

definition cityTownVillageMatch :: "jstring \<Rightarrow> jstring option" where
  "cityTownVillageMatch s = rx_lazy_dots (rx_char [shi, ku, machi, mura] rx_end) s"

text \<open>
  \<open>getMunicipality\<close>, with the rule that gave the result beside it. \<open>keys\<close> is
  \<open>Object.keys(KANA_DICT)\<close>. A match that is the empty string is falsy and is passed over.
\<close>

datatype rule = Guard | Direct | CityWard | CountyTown | DictPrefix | Suffix | Passthrough

definition resolveMunicipality :: "jstring list \<Rightarrow> jstring \<Rightarrow> jstring \<Rightarrow> rule \<times> jstring" where
  "resolveMunicipality keys addr pref =
     (if addr = [] \<or> pref = [] then
        (Guard, (if pref = [] then unknown_text else pref) @ [underscore]
                  @ (if addr = [] then unknown_point_text else addr))
      else if truthy (directMatch keys addr) then
        (Direct, pref @ [underscore] @ the (directMatch keys addr))
      else
        (let remainingAddr = stripPrefecture addr pref in
         case cityAndWardMatch remainingAddr of
           Some m \<Rightarrow> (CityWard, pref @ [underscore] @ m)
         | None \<Rightarrow>
             (case gunMatch remainingAddr of
                Some m \<Rightarrow> (CountyTown, pref @ [underscore] @ m)
              | None \<Rightarrow>
                  if truthy (forwardMatch keys remainingAddr) then
                    (DictPrefix, pref @ [underscore] @ the (forwardMatch keys remainingAddr))
                  else
                    (case cityTownVillageMatch remainingAddr of
                       Some m \<Rightarrow> (Suffix, pref @ [underscore] @ m)
                     | None \<Rightarrow> (Passthrough, pref @ [underscore] @ addr)))))"

definition getMunicipality :: "dict \<Rightarrow> jstring \<Rightarrow> jstring \<Rightarrow> jstring" where
  "getMunicipality KANA_DICT addr pref = snd (resolveMunicipality (map fst KANA_DICT) addr pref)"

section \<open>Pagination of the fixed bar (\<open>updateFixedShindoBar\<close>)\<close>

text \<open>
  The loop of step 5 of \<open>updateFixedShindoBar\<close> (and its two siblings for the tsunami
  forecast areas and the tsunami stations): \<open>pageCities\<close> is the buffer, the list
  returned is the sequence of buffers pushed to \<open>FIXED_BAR_VIEWS\<close>, in order.
  \<open>fits\<close> stands for \<open>doesTextFitInTwoLines\<close> applied to the HTML of the candidate page.
\<close>

fun paginate_from :: "('a list \<Rightarrow> bool) \<Rightarrow> 'a list \<Rightarrow> 'a list \<Rightarrow> 'a list list" where
  "paginate_from fits pageCities [] = (if length pageCities > 0 then [pageCities] else [])"
| "paginate_from fits pageCities (cityName # rest) =
     (let testCities = pageCities @ [cityName] in
      if \<not> fits testCities \<and> length pageCities > 0
      then pageCities # paginate_from fits [cityName] rest
      else paginate_from fits testCities rest)"

definition paginate :: "('a list \<Rightarrow> bool) \<Rightarrow> 'a list \<Rightarrow> 'a list list" where
  "paginate fits items = paginate_from fits [] items"

text \<open>The name shown for a city: the part after the prefecture of a key \<open>pref_city\<close>.\<close>

definition cityName :: "jstring \<Rightarrow> jstring" where
  "cityName c = (if underscore \<in> set c then split_on underscore c ! 1 else c)"

definition span :: "jstring \<Rightarrow> jstring" where
  "span c = asc ''<span class=\"inline-block\">'' @ c @ asc ''</span>''"

definition pageHtml :: "jstring list \<Rightarrow> jstring" where
  "pageHtml cs = join [ideographic_space] (map span cs)"

record view =
  vtype :: jstring
  shindo :: jstring
  line1 :: jstring
  line2 :: jstring

text \<open>
  The pages of one intensity group: \<open>probe\<close> is the measurement of the rendering surface
  on the HTML of a candidate page. The CSS class of a view is not modelled.
\<close>

definition shindoGroupPages :: "(jstring \<Rightarrow> bool) \<Rightarrow> jstring list \<Rightarrow> jstring list list" where
  "shindoGroupPages probe cities = paginate (\<lambda>p. probe (pageHtml p)) (map cityName cities)"

definition shindoGroupViews :: "(jstring \<Rightarrow> bool) \<Rightarrow> jstring \<Rightarrow> jstring list \<Rightarrow> view list" where
  "shindoGroupViews probe label cities =
     map (\<lambda>p. \<lparr>vtype = asc ''shindo'', shindo = label, line1 = pageHtml p, line2 = []\<rparr>)
       (shindoGroupPages probe cities)"

section \<open>Event aggregation (\<open>fetchEarthquakeData\<close>, \<open>processEarthquake\<close>)\<close>

subsection \<open>Reports\<close>

text \<open>
  The elements of \<open>data\<close> are the JSON objects of the four report kinds, told apart by
  \<open>code\<close>. One record holds the fields the aggregation reads; a field that a JSON object
  may lack is an option (\<open>None\<close>: \<open>undefined\<close>). The magnitude is compared with \<open>-1\<close>
  and with \<open>null\<close> by \<open>===\<close>, so it keeps \<open>null\<close> and \<open>undefined\<close> apart. Every report
  is taken to carry its \<open>issue\<close> object and every forecast its \<open>area\<close> object, as the
  upstream schema has them. The intensity scale is an integer code (10, 20, ..., 70).
\<close>

datatype magnitude = MagUndefined | MagNull | Mag real

record hypocenter =
  name :: "jstring option"
  magnitude :: magnitude

record earthquake =
  time :: "jstring option"
  hypocenter :: "hypocenter option"
  maxScale :: "int option"
  domesticTsunami :: "jstring option"

record point =
  pref :: jstring
  addr :: jstring
  scale :: int
  isArea :: bool

record issue =
  event_id :: "jstring option"
  eventid :: "jstring option"

record forecast =
  grade :: jstring
  area_name :: "jstring option"

record tsunami =
  forecasts :: "forecast list option"

record report =
  code :: int
  issue :: issue
  earthquake :: "earthquake option"
  points :: "point list option"
  tsunami :: "tsunami option"

text \<open>\<open>String(a || b)\<close> on two string fields that may be missing.\<close>

definition String_or :: "jstring option \<Rightarrow> jstring option \<Rightarrow> jstring" where
  "String_or a b =
     (if truthy a then the a
      else (case b of None \<Rightarrow> asc ''undefined'' | Some v \<Rightarrow> v))"

definition eventId :: "report \<Rightarrow> jstring" where
  "eventId info = String_or (event_id (issue info)) (eventid (issue info))"

subsection \<open>A \<open>Map\<close> in insertion order\<close>

text \<open>
  A JavaScript \<open>Map\<close> with string keys: the entries in insertion order; \<open>set\<close> on a key
  that is present replaces the value and keeps the position.
\<close>

type_synonym 'v jsmap = "(jstring \<times> 'v) list"

fun map_set :: "jstring \<Rightarrow> 'v \<Rightarrow> 'v jsmap \<Rightarrow> 'v jsmap" where
  "map_set k v [] = [(k, v)]"
| "map_set k v ((k', v') # m) =
     (if k' = k then (k, v) # m else (k', v') # map_set k v m)"

definition map_get :: "'v jsmap \<Rightarrow> jstring \<Rightarrow> 'v option" where
  "map_get m k = map_of m k"

definition map_values :: "'v jsmap \<Rightarrow> 'v list" where
  "map_values m = map snd m"

subsection \<open>Tsunami forecasts (code 552)\<close>

text \<open>
  \<open>forecastsByGrade\<close> is an object literal with three own keys, each a \<open>Set\<close> (here: the
  names in insertion order, without repetition). \<open>forecastsByGrade[g]\<close> for another \<open>g\<close>
  is \<open>undefined\<close>, unless \<open>g\<close> names an inherited property: that value is truthy and has
  no \<open>add\<close>, and the call throws.
\<close>

record forecastsByGrade =
  MajorWarning :: "jstring list"
  Warning :: "jstring list"
  Advisory :: "jstring list"

record tsunamiDetail =
  highestGrade :: jstring
  areas :: forecastsByGrade

definition set_add :: "jstring \<Rightarrow> jstring list \<Rightarrow> jstring list" where
  "set_add x xs = (if x \<in> set xs then xs else xs @ [x])"

definition addForecast :: "forecastsByGrade \<Rightarrow> forecast \<Rightarrow> error + forecastsByGrade" where
  "addForecast fbg f =
     (if grade f = asc ''MajorWarning'' then
        Inr (if truthy (area_name f)
             then fbg\<lparr>MajorWarning := set_add (the (area_name f)) (MajorWarning fbg)\<rparr> else fbg)
      else if grade f = asc ''Warning'' then
        Inr (if truthy (area_name f)
             then fbg\<lparr>Warning := set_add (the (area_name f)) (Warning fbg)\<rparr> else fbg)
      else if grade f = asc ''Advisory'' then
        Inr (if truthy (area_name f)
             then fbg\<lparr>Advisory := set_add (the (area_name f)) (Advisory fbg)\<rparr> else fbg)
      else if grade f \<in> set object_prototype_names then
        (if truthy (area_name f) then Inl TypeError else Inr fbg)
      else Inr fbg)"

fun collectForecasts :: "forecastsByGrade \<Rightarrow> forecast list \<Rightarrow> error + forecastsByGrade" where
  "collectForecasts fbg [] = Inr fbg"
| "collectForecasts fbg (f # fs) =
     (case addForecast fbg f of
        Inl e \<Rightarrow> Inl e
      | Inr fbg' \<Rightarrow> collectForecasts fbg' fs)"

definition computeHighestGrade :: "forecastsByGrade \<Rightarrow> jstring" where
  "computeHighestGrade fbg =
     (if length (MajorWarning fbg) > 0 then asc ''MajorWarning''
      else if length (Warning fbg) > 0 then asc ''Warning''
      else if length (Advisory fbg) > 0 then asc ''Advisory''
      else asc ''None'')"

text \<open>The body of \<open>tsunamiInfos.forEach\<close>: one report of code 552 and the map so far.\<close>

definition tsunamiInfoStep :: "tsunamiDetail jsmap \<Rightarrow> report \<Rightarrow> error + tsunamiDetail jsmap" where
  "tsunamiInfoStep m info =
     (case tsunami info of
        None \<Rightarrow> Inr m
      | Some t \<Rightarrow>
          (case forecasts t of
             None \<Rightarrow> Inr m
           | Some fs \<Rightarrow>
               (case collectForecasts \<lparr>MajorWarning = [], Warning = [], Advisory = []\<rparr> fs of
                  Inl e \<Rightarrow> Inl e
                | Inr fbg \<Rightarrow>
                    Inr (map_set (eventId info)
                           \<lparr>highestGrade = computeHighestGrade fbg, areas = fbg\<rparr> m))))"

fun tsunamiInfoLoop :: "tsunamiDetail jsmap \<Rightarrow> report list \<Rightarrow> error + tsunamiDetail jsmap" where
  "tsunamiInfoLoop m [] = Inr m"
| "tsunamiInfoLoop m (info # infos) =
     (case tsunamiInfoStep m info of
        Inl e \<Rightarrow> Inl e
      | Inr m' \<Rightarrow> tsunamiInfoLoop m' infos)"

definition tsunamiDetailsMap :: "report list \<Rightarrow> error + tsunamiDetail jsmap" where
  "tsunamiDetailsMap data = tsunamiInfoLoop [] (filter (\<lambda>d. code d = 552) data)"

subsection \<open>Intensity reports (code 551): filter and merge\<close>

definition MIN_LIST_SCALE :: int where
  "MIN_LIST_SCALE = 30"

definition listed :: "report \<Rightarrow> bool" where
  "listed eq =
     (code eq = 551 \<and>
      (case earthquake eq of
         None \<Rightarrow> False
       | Some e \<Rightarrow> (case maxScale e of None \<Rightarrow> False | Some s \<Rightarrow> s \<ge> MIN_LIST_SCALE)))"

definition filteredEarthquakes :: "report list \<Rightarrow> report list" where
  "filteredEarthquakes data = filter listed data"

definition eventTime :: "report \<Rightarrow> jstring option" where
  "eventTime eq = (case earthquake eq of None \<Rightarrow> None | Some e \<Rightarrow> time e)"

definition epicenterName :: "report \<Rightarrow> jstring option" where
  "epicenterName eq =
     (case earthquake eq of
        None \<Rightarrow> None
      | Some e \<Rightarrow> (case hypocenter e of None \<Rightarrow> None | Some h \<Rightarrow> name h))"

definition eventKey :: "report \<Rightarrow> jstring" where
  "eventKey eq = the (eventTime eq) @ [underscore] @ the (epicenterName eq)"

definition validMagnitude :: "magnitude \<Rightarrow> bool" where
  "validMagnitude m = (m \<noteq> Mag (- 1) \<and> m \<noteq> MagNull)"

text \<open>
  The three updates of \<open>existingEq\<close> by the incoming \<open>eq\<close> (hypocenter, maximum scale,
  tsunami status), on the two \<open>earthquake\<close> objects. Reading the magnitude of a
  missing hypocenter of \<open>existingEq\<close> throws in the source, which is \<open>Inl\<close> here.
\<close>

definition mergeEarthquake :: "earthquake \<Rightarrow> earthquake \<Rightarrow> error + earthquake" where
  "mergeEarthquake existing incoming =
     (case (case hypocenter incoming of
              None \<Rightarrow> Inr existing
            | Some ih \<Rightarrow>
                (case hypocenter existing of
                   None \<Rightarrow> Inl TypeError
                 | Some eh \<Rightarrow>
                     Inr (if \<not> validMagnitude (magnitude eh) \<and> validMagnitude (magnitude ih)
                          then existing\<lparr>hypocenter := Some ih\<rparr> else existing))) of
        Inl e \<Rightarrow> Inl e
      | Inr e1 \<Rightarrow>
          (let e2 = (case (maxScale incoming, maxScale e1) of
                       (Some a, Some b) \<Rightarrow> if a > b then e1\<lparr>maxScale := Some a\<rparr> else e1
                     | _ \<Rightarrow> e1);
               e3 = (if domesticTsunami incoming \<noteq> domesticTsunami e2
                     then e2\<lparr>domesticTsunami := domesticTsunami incoming\<rparr> else e2)
           in Inr e3))"

text \<open>
  The branch of the loop for a key that the map has. When the existing entry has no
  points and the incoming report has, the map entry becomes the incoming report;
  \<open>existingEq\<close> still names the previous object, so the three updates that follow change
  an object that is no longer in the map, and the entry stays the incoming report as it
  came. Otherwise the entry is \<open>existingEq\<close>, updated in place. The result is the value of
  the entry after the pass.
\<close>

definition mergeReports :: "report \<Rightarrow> report \<Rightarrow> error + report" where
  "mergeReports existingEq eq =
     (case (earthquake existingEq, earthquake eq) of
        (Some ee, Some ie) \<Rightarrow>
          (case mergeEarthquake ee ie of
             Inl e \<Rightarrow> Inl e
           | Inr merged \<Rightarrow>
               if points existingEq = None \<and> points eq \<noteq> None
               then Inr eq
               else Inr (existingEq\<lparr>earthquake := Some merged\<rparr>))
      | _ \<Rightarrow> Inl TypeError)"

definition validReport :: "report \<Rightarrow> bool" where
  "validReport eq = (truthy (eventTime eq) \<and> truthy (epicenterName eq))"

text \<open>One pass of the loop over \<open>filteredEarthquakes\<close>.\<close>

definition uniqueStep :: "report jsmap \<Rightarrow> report \<Rightarrow> error + report jsmap" where
  "uniqueStep m eq =
     (if \<not> truthy (eventTime eq) \<or> \<not> truthy (epicenterName eq) then Inr m
      else
        (let key = eventKey eq in
         case map_get m key of
           None \<Rightarrow> Inr (map_set key eq m)
         | Some existingEq \<Rightarrow>
             (case mergeReports existingEq eq of
                Inl e \<Rightarrow> Inl e
              | Inr v \<Rightarrow> Inr (map_set key v m))))"

fun uniqueLoop :: "report jsmap \<Rightarrow> report list \<Rightarrow> error + report jsmap" where
  "uniqueLoop m [] = Inr m"
| "uniqueLoop m (eq # eqs) =
     (case uniqueStep m eq of
        Inl e \<Rightarrow> Inl e
      | Inr m' \<Rightarrow> uniqueLoop m' eqs)"

definition uniqueEarthquakesMap :: "report list \<Rightarrow> error + report jsmap" where
  "uniqueEarthquakesMap data = uniqueLoop [] (filteredEarthquakes data)"

subsection \<open>The content hash (\<open>digestMessage\<close>)\<close>

text \<open>
  \<open>digestMessage\<close> encodes the message with \<open>TextEncoder\<close> (UTF-8), hashes the bytes with
  \<open>crypto.subtle.digest('SHA-256', _)\<close> and writes every byte of the digest as two
  lowercase hexadecimal digits. The two platform functions are modelled after their
  standards: the UTF-8 encoding of a UTF-16 string, where a surrogate that is not part of
  a pair becomes U+FFFD, and SHA-256 of FIPS 180-4. A byte is a natural number below 256.
\<close>

definition utf8_of_code_point :: "nat \<Rightarrow> nat list" where
  "utf8_of_code_point c =
     (if c < 0x80 then [c]
      else if c < 0x800 then [0xC0 + c div 64, 0x80 + c mod 64]
      else if c < 0x10000 then [0xE0 + c div 4096, 0x80 + (c div 64) mod 64, 0x80 + c mod 64]
      else [0xF0 + c div 262144, 0x80 + (c div 4096) mod 64,
            0x80 + (c div 64) mod 64, 0x80 + c mod 64])"

definition is_high_surrogate :: "nat \<Rightarrow> bool" where
  "is_high_surrogate c = (0xD800 \<le> c \<and> c \<le> 0xDBFF)"

definition is_low_surrogate :: "nat \<Rightarrow> bool" where
  "is_low_surrogate c = (0xDC00 \<le> c \<and> c \<le> 0xDFFF)"

fun TextEncoder_encode :: "jstring \<Rightarrow> nat list" where
  "TextEncoder_encode [] = []"
| "TextEncoder_encode [c] =
     (if is_high_surrogate c \<or> is_low_surrogate c then utf8_of_code_point 0xFFFD
      else utf8_of_code_point c)"
| "TextEncoder_encode (c # d # cs) =
     (if is_high_surrogate c \<and> is_low_surrogate d
      then utf8_of_code_point (0x10000 + (c - 0xD800) * 1024 + (d - 0xDC00))
             @ TextEncoder_encode cs
      else if is_high_surrogate c \<or> is_low_surrogate c
      then utf8_of_code_point 0xFFFD @ TextEncoder_encode (d # cs)
      else utf8_of_code_point c @ TextEncoder_encode (d # cs))"

type_synonym w32 = "32 word"

text \<open>
  The round constants are the first 32 bits of the fractional parts of the cube roots of
  the first 64 primes: \<open>floor_root 3 (p * 2 ^ 96)\<close> is the cube root of \<open>p\<close> scaled by
  \<open>2 ^ 32\<close>, and the conversion to a word keeps its low 32 bits.
\<close>

definition floor_root :: "nat \<Rightarrow> nat \<Rightarrow> nat" where
  "floor_root k n =
     foldl (\<lambda>r b. if (r + 2 ^ b) ^ k \<le> n then r + 2 ^ b else r) 0 (rev [0..<36])"

definition first_primes :: "nat \<Rightarrow> nat list" where
  "first_primes n =
     take n (filter (\<lambda>p. list_all (\<lambda>d. p mod d \<noteq> 0) [2..<p]) [2..<312])"

definition sha_K :: "w32 list" where
  "sha_K = map (\<lambda>p. of_nat (floor_root 3 (p * 2 ^ 96))) (first_primes 64)"

type_synonym sha_state = "w32 \<times> w32 \<times> w32 \<times> w32 \<times> w32 \<times> w32 \<times> w32 \<times> w32"

definition sha_H0 :: sha_state where
  "sha_H0 = (0x6a09e667, 0xbb67ae85, 0x3c6ef372, 0xa54ff53a,
             0x510e527f, 0x9b05688c, 0x1f83d9ab, 0x5be0cd19)"

definition sha_pad :: "nat list \<Rightarrow> nat list" where
  "sha_pad msg =
     msg @ [0x80] @ replicate ((119 - length msg mod 64) mod 64) 0
       @ map (\<lambda>i. (8 * length msg) div 256 ^ (7 - i) mod 256) [0..<8]"

definition sha_blocks :: "nat list \<Rightarrow> nat list list" where
  "sha_blocks bs = map (\<lambda>i. take 64 (drop (64 * i) bs)) [0..<length bs div 64]"

definition be32 :: "nat list \<Rightarrow> w32" where
  "be32 bs = of_nat (foldl (\<lambda>acc b. acc * 256 + b) 0 bs)"

definition sha_words :: "nat list \<Rightarrow> w32 list" where
  "sha_words block = map (\<lambda>i. be32 (take 4 (drop (4 * i) block))) [0..<16]"

definition small_sigma0 :: "w32 \<Rightarrow> w32" where
  "small_sigma0 x = xor (xor (word_rotr 7 x) (word_rotr 18 x)) (drop_bit 3 x)"

definition small_sigma1 :: "w32 \<Rightarrow> w32" where
  "small_sigma1 x = xor (xor (word_rotr 17 x) (word_rotr 19 x)) (drop_bit 10 x)"

definition big_sigma0 :: "w32 \<Rightarrow> w32" where
  "big_sigma0 x = xor (xor (word_rotr 2 x) (word_rotr 13 x)) (word_rotr 22 x)"

definition big_sigma1 :: "w32 \<Rightarrow> w32" where
  "big_sigma1 x = xor (xor (word_rotr 6 x) (word_rotr 11 x)) (word_rotr 25 x)"

definition sha_Ch :: "w32 \<Rightarrow> w32 \<Rightarrow> w32 \<Rightarrow> w32" where
  "sha_Ch x y z = xor (and x y) (and (not x) z)"

definition sha_Maj :: "w32 \<Rightarrow> w32 \<Rightarrow> w32 \<Rightarrow> w32" where
  "sha_Maj x y z = xor (xor (and x y) (and x z)) (and y z)"

fun sha_schedule :: "nat \<Rightarrow> w32 list \<Rightarrow> w32 list" where
  "sha_schedule 0 ws = ws"
| "sha_schedule (Suc n) ws =
     (let l = length ws in
      sha_schedule n
        (ws @ [small_sigma1 (ws ! (l - 2)) + ws ! (l - 7)
               + small_sigma0 (ws ! (l - 15)) + ws ! (l - 16)]))"

fun sha_round :: "sha_state \<Rightarrow> w32 \<times> w32 \<Rightarrow> sha_state" where
  "sha_round (a, b, c, d, e, f, g, h) (k, w) =
     (let t1 = h + big_sigma1 e + sha_Ch e f g + k + w;
          t2 = big_sigma0 a + sha_Maj a b c
      in (t1 + t2, a, b, c, d + t1, e, f, g))"

fun sha_add :: "sha_state \<Rightarrow> sha_state \<Rightarrow> sha_state" where
  "sha_add (a, b, c, d, e, f, g, h) (a', b', c', d', e', f', g', h') =
     (a + a', b + b', c + c', d + d', e + e', f + f', g + g', h + h')"

definition sha_compress :: "sha_state \<Rightarrow> nat list \<Rightarrow> sha_state" where
  "sha_compress st block =
     sha_add st (foldl sha_round st (zip sha_K (sha_schedule 48 (sha_words block))))"

definition word_bytes :: "w32 \<Rightarrow> nat list" where
  "word_bytes w = map (\<lambda>i. unat w div 256 ^ (3 - i) mod 256) [0..<4]"

fun state_bytes :: "sha_state \<Rightarrow> nat list" where
  "state_bytes (a, b, c, d, e, f, g, h) = concat (map word_bytes [a, b, c, d, e, f, g, h])"

definition sha256 :: "nat list \<Rightarrow> nat list" where
  "sha256 msg = state_bytes (foldl sha_compress sha_H0 (sha_blocks (sha_pad msg)))"

definition hex_digit :: "nat \<Rightarrow> nat" where
  "hex_digit d = (if d < 10 then 0x30 + d else 0x61 + (d - 10))"

text \<open>\<open>b.toString(16).padStart(2, '0')\<close> for a byte \<open>b\<close>.\<close>

definition byte_hex :: "nat \<Rightarrow> jstring" where
  "byte_hex b =
     (if b < 16 then [0x30, hex_digit b] else [hex_digit (b div 16), hex_digit (b mod 16)])"

definition digestMessage :: "jstring \<Rightarrow> jstring" where
  "digestMessage message = concat (map byte_hex (sha256 (TextEncoder_encode message)))"


subsection \<open>Events (\<open>processEarthquake\<close>)\<close>

text \<open>
  The event object returned by \<open>processEarthquake\<close>, with the fields the aggregation
  decides: identifier, epicenter, maximum scale, tsunami status, forecast areas and points.
  The fields that only format these for display (date text, labels, badges, magnitude
  text) and the tsunami observations are left out.
\<close>

record processedPoint = point +
  originalAddr :: jstring

record event =
  ev_id :: jstring
  ev_epicenter :: jstring
  ev_tsunami :: "jstring option"
  ev_tsunamiForecastAreas :: "forecastsByGrade option"
  ev_maxScale :: "int option"
  ev_points :: "processedPoint list"

definition unknown_epicenter :: jstring where
  "unknown_epicenter = unknown_text"

text \<open>A template literal prints a missing value as \<open>undefined\<close>.\<close>

definition template :: "jstring option \<Rightarrow> jstring" where
  "template s = (case s of None \<Rightarrow> asc ''undefined'' | Some v \<Rightarrow> v)"

definition idSource :: "earthquake \<Rightarrow> jstring" where
  "idSource eqData =
     template (time eqData) @ [underscore] @
       (case hypocenter eqData of
          None \<Rightarrow> unknown_epicenter
        | Some h \<Rightarrow> if truthy (name h) then the (name h) else unknown_epicenter)"

definition processedPoints :: "point list option \<Rightarrow> processedPoint list" where
  "processedPoints ps =
     (case ps of
        None \<Rightarrow> []
      | Some l \<Rightarrow> map (\<lambda>p. \<lparr>pref = pref p, addr = addr p, scale = scale p,
                            isArea = isArea p, originalAddr = addr p\<rparr>) l)"

definition processEarthquake :: "tsunamiDetail jsmap \<Rightarrow> report \<Rightarrow> error + event" where
  "processEarthquake tmap r =
     (case earthquake r of
        None \<Rightarrow> Inl TypeError
      | Some eqData \<Rightarrow>
          Inr \<lparr>ev_id = digestMessage (idSource eqData),
               ev_epicenter = (case hypocenter eqData of
                                 None \<Rightarrow> unknown_epicenter
                               | Some h \<Rightarrow> if truthy (name h) then the (name h)
                                           else unknown_epicenter),
               ev_tsunami = domesticTsunami eqData,
               ev_tsunamiForecastAreas =
                 (case map_get tmap (eventId r) of
                    None \<Rightarrow> None
                  | Some tsunamiData \<Rightarrow> Some (areas tsunamiData)),
               ev_maxScale = maxScale eqData,
               ev_points = processedPoints (points r)\<rparr>)"

fun processAll :: "tsunamiDetail jsmap \<Rightarrow> report list \<Rightarrow> error + event list" where
  "processAll tmap [] = Inr []"
| "processAll tmap (r # rs) =
     (case processEarthquake tmap r of
        Inl e \<Rightarrow> Inl e
      | Inr ev \<Rightarrow> (case processAll tmap rs of Inl e \<Rightarrow> Inl e | Inr evs \<Rightarrow> Inr (ev # evs)))"

text \<open>
  \<open>fetchEarthquakeData\<close> from the point where \<open>data\<close> holds the reports of the poll: an
  exception anywhere is caught and the result is the empty list. The early-warning alert
  (code 554) and the pass over the tsunami observations (code 556) are left out.
\<close>

definition fetchEarthquakeData :: "report list \<Rightarrow> event list" where
  "fetchEarthquakeData data =
     (case tsunamiDetailsMap data of
        Inl e \<Rightarrow> []
      | Inr tmap \<Rightarrow>
          (case uniqueEarthquakesMap data of
             Inl e \<Rightarrow> []
           | Inr m \<Rightarrow>
               (case processAll tmap (map_values m) of
                  Inl e \<Rightarrow> []
                | Inr evs \<Rightarrow> evs)))"

subsection \<open>Notions for the properties of the merge\<close>

text \<open>
  The reports that take part in the merge: those that pass the filter and have an event
  time and an epicenter name.
\<close>

definition mergeable :: "report list \<Rightarrow> report list" where
  "mergeable data = filter validReport (filteredEarthquakes data)"

text \<open>
  The merge of the reports of one key, in fetch order: the first one seeds the entry,
  each later one goes through \<open>mergeReports\<close>.
\<close>

fun mergeGroup :: "report option \<Rightarrow> report list \<Rightarrow> error + report option" where
  "mergeGroup cur [] = Inr cur"
| "mergeGroup None (r # rs) = mergeGroup (Some r) rs"
| "mergeGroup (Some existingEq) (r # rs) =
     (case mergeReports existingEq r of
        Inl e \<Rightarrow> Inl e
      | Inr v \<Rightarrow> mergeGroup (Some v) rs)"

text \<open>The keys of a sequence in the order of their first occurrence.\<close>

fun keysFrom :: "jstring list \<Rightarrow> jstring list \<Rightarrow> jstring list" where
  "keysFrom acc [] = acc"
| "keysFrom acc (k # ks) = keysFrom (if k \<in> set acc then acc else acc @ [k]) ks"

subsection \<open>Notions for the properties of the tsunami pass\<close>

definition forecastsOf :: "report \<Rightarrow> forecast list option" where
  "forecastsOf info = (case tsunami info of None \<Rightarrow> None | Some t \<Rightarrow> forecasts t)"

text \<open>
  The forecasts of the last report of code 552, in fetch order, that has a forecast list
  and the correlation id \<open>k\<close>.
\<close>

definition lastForecasts :: "report list \<Rightarrow> jstring \<Rightarrow> forecast list option" where
  "lastForecasts data k =
     (case find (\<lambda>d. code d = 552 \<and> forecastsOf d \<noteq> None \<and> eventId d = k) (rev data) of
        None \<Rightarrow> None
      | Some info \<Rightarrow> forecastsOf info)"

text \<open>The area names of the forecasts of one grade, in order, with repetitions.\<close>

definition gradeNames :: "jstring \<Rightarrow> forecast list \<Rightarrow> jstring list" where
  "gradeNames g fs =
     map (\<lambda>f. the (area_name f)) (filter (\<lambda>f. grade f = g \<and> truthy (area_name f)) fs)"

text \<open>
  \<open>d\<close> is the detail of the forecast list \<open>fs\<close>: per grade the area names of \<open>fs\<close> at
  that grade, each once, in the order of their first occurrence, and the highest grade
  that has a name.
\<close>

definition isDetailOf :: "tsunamiDetail \<Rightarrow> forecast list \<Rightarrow> bool" where
  "isDetailOf d fs =
     (MajorWarning (areas d) = keysFrom [] (gradeNames (asc ''MajorWarning'') fs)
      \<and> Warning (areas d) = keysFrom [] (gradeNames (asc ''Warning'') fs)
      \<and> Advisory (areas d) = keysFrom [] (gradeNames (asc ''Advisory'') fs)
      \<and> highestGrade d =
          (if MajorWarning (areas d) \<noteq> [] then asc ''MajorWarning''
           else if Warning (areas d) \<noteq> [] then asc ''Warning''
           else if Advisory (areas d) \<noteq> [] then asc ''Advisory''
           else asc ''None''))"

subsection \<open>Example reports\<close>

definition intensityReport :: "jstring \<Rightarrow> jstring \<Rightarrow> int \<Rightarrow> point list option \<Rightarrow> report" where
  "intensityReport t n s ps =
     \<lparr>code = 551, issue = \<lparr>event_id = None, eventid = None\<rparr>,
      earthquake = Some \<lparr>time = Some t,
                         hypocenter = Some \<lparr>name = Some n, magnitude = Mag 9\<rparr>,
                         maxScale = Some s, domesticTsunami = Some (asc ''Checking'')\<rparr>,
      points = ps, tsunami = None\<rparr>"

definition tohoku_time :: jstring where
  "tohoku_time = asc ''2011-03-11T14:46:00+09:00''"

definition sanriku_oki :: jstring where
  "sanriku_oki = [0x4E09, 0x9678, 0x6C96]"

definition miyagi_oki :: jstring where
  "miyagi_oki = [0x5BAE, 0x57CE, 0x770C, 0x6C96]"

definition point_a :: point where
  "point_a = \<lparr>pref = [0x5BAE, 0x57CE, 0x770C], addr = [0x6817, 0x539F, 0x5E02], scale = 70,
              isArea = False\<rparr>"


definition forecastReport :: "jstring \<Rightarrow> (jstring \<times> jstring) list \<Rightarrow> report" where
  "forecastReport i fs =
     \<lparr>code = 552, issue = \<lparr>event_id = None, eventid = Some i\<rparr>, earthquake = None,
      points = None,
      tsunami = Some \<lparr>forecasts = Some (map (\<lambda>(g, a). \<lparr>grade = g, area_name = Some a\<rparr>) fs)\<rparr>\<rparr>"

definition fukuoka_sawara_key :: jstring where
  "fukuoka_sawara_key =
     [0x798F, 0x5CA1, 0x770C, 0x5F, 0x798F, 0x5CA1, 0x5E02, 0x65E9, 0x826F, 0x533A]"

definition fukuoka_sawara :: jstring where
  "fukuoka_sawara = [0x798F, 0x5CA1, 0x5E02, 0x65E9, 0x826F, 0x533A]"

definition fukuoka_sawara_kana :: jstring where
  "fukuoka_sawara_kana =
     [0x30D5, 0x30AF, 0x30AA, 0x30AB, 0x30B7, 0x30B5, 0x30EF, 0x30E9, 0x30AF]"

definition hokkaido :: jstring where
  "hokkaido = [0x5317, 0x6D77, 0x9053]"

definition kushiro_shi :: jstring where
  "kushiro_shi = [0x91E7, 0x8DEF, 0x5E02]"

definition miyagi_ken :: jstring where
  "miyagi_ken = [0x5BAE, 0x57CE, 0x770C]"

definition sendai_miyagino_ku :: jstring where
  "sendai_miyagino_ku = [0x4ED9, 0x53F0, 0x5E02, 0x5BAE, 0x57CE, 0x91CE, 0x533A]"

definition sorachi_nanporo_cho :: jstring where
  "sorachi_nanporo_cho = [0x7A7A, 0x77E5, 0x90E1, 0x5357, 0x5E4C, 0x753A]"

definition tochigi_ken :: jstring where
  "tochigi_ken = [0x6803, 0x6728, 0x770C]"

definition tochigi_shi :: jstring where
  "tochigi_shi = [0x6803, 0x6728, 0x5E02]"

definition irifune_cho :: jstring where
  "irifune_cho = [0x5165, 0x821F, 0x753A]"

section \<open>Properties of the strings\<close>

text \<open>The indexed reads of the segments of a split are in range.\<close>

lemma split_on_nonempty: "split_on sep s \<noteq> []"
  by (induction s) (auto split: list.splits)

lemma split_on_two: "sep \<in> set s \<Longrightarrow> 1 < length (split_on sep s)"
proof (induction s)
  case Nil
  then show ?case by simp
next
  case (Cons c cs)
  show ?case
  proof (cases "c = sep")
    case True
    then show ?thesis using split_on_nonempty [of sep cs] by (cases "split_on sep cs") auto
  next
    case False
    with Cons show ?thesis by (auto split: list.splits)
  qed
qed

section \<open>Properties of the pagination\<close>

lemma concat_paginate_from:
  "concat (paginate_from fits buf items) = buf @ items"
  by (induction items arbitrary: buf) (auto simp: Let_def)

lemma paginate_from_nonempty:
  "[] \<notin> set (paginate_from fits buf items)"
  by (induction items arbitrary: buf) (auto simp: Let_def)



text \<open>
  Claim C9. The pages are lists of whole items: concatenated in page order they are the
  input list, unchanged, no page is empty, and the empty list gives no page. For an
  intensity group the items are the displayed city names, and the text of a view is the
  HTML of the whole items of its page.
\<close>

theorem paginate_concat:
  "concat (paginate fits items) = items
   \<and> [] \<notin> set (paginate fits items)
   \<and> paginate fits [] = []
   \<and> concat (shindoGroupPages probe cities) = map cityName cities
   \<and> map line1 (shindoGroupViews probe label cities)
       = map pageHtml (shindoGroupPages probe cities)"
  by (simp add: paginate_def shindoGroupPages_def shindoGroupViews_def
      concat_paginate_from paginate_from_nonempty comp_def)

theorem paginate_concat_witness:
  "concat (paginate (\<lambda>p. sum_list p \<le> 5) [3, 2, 9, 1 :: nat]) = [3, 2, 9, 1]
   \<and> paginate (\<lambda>p. sum_list p \<le> 5) [3, 2, 9, 1 :: nat] = [[3, 2], [9], [1]]"
  using paginate_concat [of "\<lambda>p. sum_list p \<le> 5" "[3, 2, 9, 1 :: nat]"]
  by (simp add: paginate_def)



section \<open>Properties of the event aggregation\<close>


lemma map_of_map_set: "map_of (map_set k v m) = (map_of m)(k \<mapsto> v)"
  by (induction m) (auto simp: fun_eq_iff)

lemma map_get_map_set: "map_get (map_set k v m) k' = (if k' = k then Some v else map_get m k')"
  by (simp add: map_get_def map_of_map_set)

lemma keys_map_set:
  "map fst (map_set k v m) = (if k \<in> set (map fst m) then map fst m else map fst m @ [k])"
  by (induction m) (force+)

lemma not_truthy_None: "\<not> truthy None"
  by (simp add: truthy_def)

lemma validReport_earthquake:
  assumes "validReport r"
  shows "\<exists>e h. earthquake r = Some e \<and> hypocenter e = Some h \<and> truthy (name h) \<and> truthy (time e)"
proof (cases "earthquake r")
  case None
  with assms show ?thesis by (simp add: validReport_def eventTime_def not_truthy_None)
next
  case (Some e)
  show ?thesis
  proof (cases "hypocenter e")
    case None
    with Some assms show ?thesis
      by (simp add: validReport_def epicenterName_def not_truthy_None)
  next
    case (Some h)
    with \<open>earthquake r = Some e\<close> assms show ?thesis
      by (simp add: validReport_def eventTime_def epicenterName_def)
  qed
qed

lemma mergeEarthquake_ok:
  assumes "hypocenter ee = Some eh" "truthy (name eh)" "hypocenter ie = Some ih" "truthy (name ih)"
  shows "\<exists>e' h'. mergeEarthquake ee ie = Inr e' \<and> time e' = time ee \<and> hypocenter e' = Some h' \<and> truthy (name h')"
  using assms by (auto simp: mergeEarthquake_def Let_def split: option.splits)

lemma mergeReports_ok:
  assumes "validReport ex" "validReport eq"
  shows "\<exists>v. mergeReports ex eq = Inr v \<and> validReport v"
proof -
  from validReport_earthquake[OF assms(1)] obtain ee eh where
    ee: "earthquake ex = Some ee" "hypocenter ee = Some eh" "truthy (name eh)" "truthy (time ee)" by blast
  from validReport_earthquake[OF assms(2)] obtain ie ih where
    ie: "earthquake eq = Some ie" "hypocenter ie = Some ih" "truthy (name ih)" "truthy (time ie)" by blast
  from mergeEarthquake_ok[OF ee(2,3) ie(2,3)] obtain e' h' where
    m: "mergeEarthquake ee ie = Inr e'" "time e' = time ee" "hypocenter e' = Some h'" "truthy (name h')" by blast
  have "validReport (ex\<lparr>earthquake := Some e'\<rparr>)"
    using m ee by (simp add: validReport_def eventTime_def epicenterName_def)
  then show ?thesis using ee ie m assms(2) by (simp add: mergeReports_def)
qed


lemma list_all_map_set:
  "list_all P m \<Longrightarrow> P (k, v) \<Longrightarrow> list_all P (map_set k v m)"
  by (induction m) auto

lemma map_get_Some_valid:
  "list_all (\<lambda>e. validReport (snd e)) m \<Longrightarrow> map_get m k = Some v \<Longrightarrow> validReport v"
  by (auto simp: map_get_def list_all_iff dest!: map_of_SomeD)

lemma uniqueStep_invalid: "\<not> validReport eq \<Longrightarrow> uniqueStep m eq = Inr m"
  by (auto simp: uniqueStep_def validReport_def)

lemma uniqueStep_valid:
  assumes "list_all (\<lambda>e. validReport (snd e)) m" "validReport eq"
  shows "\<exists>v. mergeGroup (map_get m (eventKey eq)) [eq] = Inr (Some v) \<and> validReport v
           \<and> uniqueStep m eq = Inr (map_set (eventKey eq) v m)"
proof (cases "map_get m (eventKey eq)")
  case None
  with assms show ?thesis by (simp add: uniqueStep_def validReport_def)
next
  case (Some ex)
  with assms have "validReport ex" by (blast intro: map_get_Some_valid)
  from mergeReports_ok[OF this assms(2)] obtain v where
    "mergeReports ex eq = Inr v" "validReport v" by blast
  with Some assms(2) show ?thesis by (simp add: uniqueStep_def validReport_def)
qed

lemma mergeGroup_append:
  "mergeGroup cur (xs @ ys) =
     (case mergeGroup cur xs of Inl e \<Rightarrow> Inl e | Inr c \<Rightarrow> mergeGroup c ys)"
proof (induction xs arbitrary: cur)
  case Nil
  then show ?case by simp
next
  case (Cons x xs)
  then show ?case by (cases cur) (auto split: sum.splits)
qed

lemma mergeGroup_Cons:
  "mergeGroup cur [x] = Inr c \<Longrightarrow> mergeGroup cur (x # xs) = mergeGroup c xs"
  using mergeGroup_append [of cur "[x]" xs] by simp

lemma uniqueLoop_char:
  assumes "list_all (\<lambda>e. validReport (snd e)) m"
  shows "\<exists>m'. uniqueLoop m eqs = Inr m' \<and> list_all (\<lambda>e. validReport (snd e)) m'
           \<and> map fst m' = keysFrom (map fst m) (map eventKey (filter validReport eqs))
           \<and> (\<forall>k. mergeGroup (map_get m k) (filter (\<lambda>r. eventKey r = k) (filter validReport eqs))
                    = Inr (map_get m' k))"
  using assms
proof (induction eqs arbitrary: m)
  case Nil
  then show ?case by simp
next
  case (Cons eq eqs)
  show ?case
  proof (cases "validReport eq")
    case False
    then show ?thesis using Cons.IH [OF Cons.prems] by (simp add: uniqueStep_invalid)
  next
    case True
    from uniqueStep_valid [OF Cons.prems True] obtain v where
      v: "mergeGroup (map_get m (eventKey eq)) [eq] = Inr (Some v)" "validReport v"
         "uniqueStep m eq = Inr (map_set (eventKey eq) v m)" by blast
    let ?m1 = "map_set (eventKey eq) v m"
    have inv: "list_all (\<lambda>e. validReport (snd e)) ?m1"
      using Cons.prems v(2) by (simp add: list_all_map_set)
    from Cons.IH [OF inv] obtain m' where
      m': "uniqueLoop ?m1 eqs = Inr m'" "list_all (\<lambda>e. validReport (snd e)) m'"
          "map fst m' = keysFrom (map fst ?m1) (map eventKey (filter validReport eqs))"
          "\<forall>k. mergeGroup (map_get ?m1 k) (filter (\<lambda>r. eventKey r = k) (filter validReport eqs))
                = Inr (map_get m' k)" by blast
    have keys: "map fst m' = keysFrom (map fst m) (map eventKey (filter validReport (eq # eqs)))"
      using m'(3) True by (simp add: keys_map_set)
    have grp: "mergeGroup (map_get m k) (filter (\<lambda>r. eventKey r = k) (filter validReport (eq # eqs)))
                = Inr (map_get m' k)" for k
    proof (cases "eventKey eq = k")
      case True
      have "mergeGroup (Some v) (filter (\<lambda>r. eventKey r = k) (filter validReport eqs))
              = Inr (map_get m' k)"
        using m'(4) [rule_format, of k] True by (simp add: map_get_map_set)
      then show ?thesis using v(1) True \<open>validReport eq\<close>
        by (simp add: mergeGroup_Cons)
    next
      case False
      have "mergeGroup (map_get m k) (filter (\<lambda>r. eventKey r = k) (filter validReport eqs))
              = Inr (map_get m' k)"
        using m'(4) [rule_format, of k] False by (simp add: map_get_map_set)
      then show ?thesis using False \<open>validReport eq\<close> by simp
    qed
    show ?thesis using v(3) m'(1,2) keys grp by simp
  qed
qed

lemma distinct_keysFrom: "distinct acc \<Longrightarrow> distinct (keysFrom acc ks)"
  by (induction ks arbitrary: acc) auto

lemma set_keysFrom: "set (keysFrom acc ks) = set acc \<union> set ks"
  by (induction ks arbitrary: acc) auto



lemma processAll_ok:
  "list_all validReport rs \<Longrightarrow>
   \<exists>evs. processAll tmap rs = Inr evs \<and> length evs = length rs
     \<and> map ev_points evs = map (\<lambda>r. processedPoints (points r)) rs"
proof (induction rs)
  case Nil
  then show ?case by simp
next
  case (Cons r rs)
  from Cons.prems have "validReport r" by simp
  from validReport_earthquake [OF this] obtain e where e: "earthquake r = Some e" by blast
  from Cons obtain evs where
    "processAll tmap rs = Inr evs" "length evs = length rs"
    "map ev_points evs = map (\<lambda>r. processedPoints (points r)) rs" by auto
  with e show ?case by (simp add: processEarthquake_def)
qed

lemma key_inj:
  "underscore \<notin> set t1 \<Longrightarrow> underscore \<notin> set t2 \<Longrightarrow>
   t1 @ [underscore] @ n1 = t2 @ [underscore] @ n2 \<Longrightarrow> t1 = t2 \<and> n1 = n2"
proof (induction t1 arbitrary: t2)
  case Nil
  then show ?case by (cases t2) auto
next
  case (Cons c t1)
  then show ?case by (cases t2) auto
qed

lemma eventKey_eq_iff:
  assumes "validReport r1" "validReport r2"
    "underscore \<notin> set (the (eventTime r1))" "underscore \<notin> set (the (eventTime r2))"
  shows "(eventKey r1 = eventKey r2) = (eventTime r1 = eventTime r2 \<and> epicenterName r1 = epicenterName r2)"
proof -
  from assms(1) obtain t1 n1 where r1: "eventTime r1 = Some t1" "epicenterName r1 = Some n1"
    by (auto simp: validReport_def truthy_def split: option.splits)
  from assms(2) obtain t2 n2 where r2: "eventTime r2 = Some t2" "epicenterName r2 = Some n2"
    by (auto simp: validReport_def truthy_def split: option.splits)
  show ?thesis using key_inj [of t1 t2 n1 n2] assms(3,4) r1 r2
    by (auto simp: eventKey_def)
qed

lemma issue_irrelevant:
  "listed (r\<lparr>issue := i\<rparr>) = listed r" "validReport (r\<lparr>issue := i\<rparr>) = validReport r"
  "eventKey (r\<lparr>issue := i\<rparr>) = eventKey r"
  by (simp_all add: listed_def validReport_def eventKey_def eventTime_def epicenterName_def)

lemma mergeable_keys_issue:
  "map eventKey (mergeable (map (\<lambda>r. r\<lparr>issue := f r\<rparr>) data)) = map eventKey (mergeable data)"
  by (induction data) (simp_all add: mergeable_def filteredEarthquakes_def issue_irrelevant)

lemma uniqueEarthquakesMap_char:
  "\<exists>m. uniqueEarthquakesMap data = Inr m \<and> list_all (\<lambda>e. validReport (snd e)) m
      \<and> map fst m = keysFrom [] (map eventKey (mergeable data))
      \<and> (\<forall>k. mergeGroup None (filter (\<lambda>r. eventKey r = k) (mergeable data)) = Inr (map_get m k))"
  using uniqueLoop_char [of "[]" "filteredEarthquakes data"]
  by (simp add: uniqueEarthquakesMap_def mergeable_def map_get_def)


lemmas aggregation_defs = fetchEarthquakeData_def tsunamiDetailsMap_def
  uniqueEarthquakesMap_def filteredEarthquakes_def listed_def MIN_LIST_SCALE_def
  uniqueStep_def eventTime_def epicenterName_def eventKey_def truthy_def map_get_def
  mergeReports_def mergeEarthquake_def validMagnitude_def map_values_def
  processEarthquake_def eventId_def String_or_def intensityReport_def underscore_def
  mergeable_def validReport_def tohoku_time_def sanriku_oki_def miyagi_oki_def Let_def

text \<open>
  Claim C1, as the code has it. The merge key is the string \<open>time_name\<close>. The keys of the
  map are distinct and are the keys of the mergeable reports; the entry of a key is the
  merge, in fetch order, of exactly the reports of that key; when the tsunami pass does
  not throw, there is one event per key. When no event time contains an underscore, two
  reports have the same key if and only if they have the same event time and the same
  epicenter name. The \<open>issue\<close> of the reports (the upstream event id) has no part in
  the keys.
\<close>

theorem unique_events_by_key:
  "\<exists>m. uniqueEarthquakesMap data = Inr m
     \<and> distinct (map fst m)
     \<and> set (map fst m) = eventKey ` set (mergeable data)
     \<and> (\<forall>k. mergeGroup None (filter (\<lambda>r. eventKey r = k) (mergeable data)) = Inr (map_get m k))
     \<and> (tsunamiDetailsMap data \<noteq> Inl TypeError \<longrightarrow>
          length (fetchEarthquakeData data) = card (eventKey ` set (mergeable data)))
     \<and> ((\<forall>r \<in> set (mergeable data). underscore \<notin> set (the (eventTime r))) \<longrightarrow>
          (\<forall>r1 \<in> set (mergeable data). \<forall>r2 \<in> set (mergeable data).
             (eventKey r1 = eventKey r2)
               = (eventTime r1 = eventTime r2 \<and> epicenterName r1 = epicenterName r2)))
     \<and> (\<forall>f. \<exists>m'. uniqueEarthquakesMap (map (\<lambda>r. r\<lparr>issue := f r\<rparr>) data) = Inr m'
            \<and> map fst m' = map fst m)"
proof -
  from uniqueEarthquakesMap_char [of data] obtain m where
    m: "uniqueEarthquakesMap data = Inr m" "list_all (\<lambda>e. validReport (snd e)) m"
       "map fst m = keysFrom [] (map eventKey (mergeable data))"
       "\<forall>k. mergeGroup None (filter (\<lambda>r. eventKey r = k) (mergeable data)) = Inr (map_get m k)"
    by blast
  have d: "distinct (map fst m)" using m(3) by (simp add: distinct_keysFrom)
  have s: "set (map fst m) = eventKey ` set (mergeable data)"
    using m(3) by (simp add: set_keysFrom)
  have len: "length (fetchEarthquakeData data) = card (eventKey ` set (mergeable data))"
    if "tsunamiDetailsMap data \<noteq> Inl TypeError"
  proof -
    from that obtain tmap where t: "tsunamiDetailsMap data = Inr tmap"
      by (cases "tsunamiDetailsMap data") (auto intro: error.exhaust)
    have "list_all validReport (map_values m)"
      using m(2) by (simp add: map_values_def list_all_iff)
    from processAll_ok [OF this, of tmap] obtain evs where
      "processAll tmap (map_values m) = Inr evs" "length evs = length (map_values m)" by blast
    then have "length (fetchEarthquakeData data) = length (map fst m)"
      using t m(1) by (simp add: fetchEarthquakeData_def map_values_def)
    also have "\<dots> = card (set (map fst m))" using distinct_card [OF d] by simp
    finally show ?thesis using s by simp
  qed
  have inj: "(eventKey r1 = eventKey r2)
               = (eventTime r1 = eventTime r2 \<and> epicenterName r1 = epicenterName r2)"
    if "\<forall>r \<in> set (mergeable data). underscore \<notin> set (the (eventTime r))"
      "r1 \<in> set (mergeable data)" "r2 \<in> set (mergeable data)" for r1 r2
    using that eventKey_eq_iff [of r1 r2] by (simp add: mergeable_def)
  have iss: "\<exists>m'. uniqueEarthquakesMap (map (\<lambda>r. r\<lparr>issue := f r\<rparr>) data) = Inr m'
            \<and> map fst m' = map fst m" for f
    using uniqueEarthquakesMap_char [of "map (\<lambda>r. r\<lparr>issue := f r\<rparr>) data"] m(3)
    by (auto simp: mergeable_keys_issue)
  show ?thesis using m(1,4) d s len inj iss by blast
qed

theorem unique_events_by_key_witness:
  "tsunamiDetailsMap
       [intensityReport tohoku_time sanriku_oki 60 None,
        intensityReport tohoku_time miyagi_oki 40 None,
        intensityReport tohoku_time sanriku_oki 70 (Some [point_a])] \<noteq> Inl TypeError
   \<and> list_all (\<lambda>r. underscore \<notin> set (the (eventTime r)))
       (mergeable
         [intensityReport tohoku_time sanriku_oki 60 None,
          intensityReport tohoku_time miyagi_oki 40 None,
          intensityReport tohoku_time sanriku_oki 70 (Some [point_a])])
   \<and> length (fetchEarthquakeData
       [intensityReport tohoku_time sanriku_oki 60 None,
        intensityReport tohoku_time miyagi_oki 40 None,
        intensityReport tohoku_time sanriku_oki 70 (Some [point_a])]) = 2"
proof -
  let ?d = "[intensityReport tohoku_time sanriku_oki 60 None,
             intensityReport tohoku_time miyagi_oki 40 None,
             intensityReport tohoku_time sanriku_oki 70 (Some [point_a])]"
  have t: "tsunamiDetailsMap ?d \<noteq> Inl TypeError"
    by (simp add: tsunamiDetailsMap_def intensityReport_def)
  have u: "list_all (\<lambda>r. underscore \<notin> set (the (eventTime r))) (mergeable ?d)"
    by (simp add: aggregation_defs)
  have c: "card (eventKey ` set (mergeable ?d)) = 2"
    by (simp add: aggregation_defs card_insert_if)
  from unique_events_by_key [of ?d] t
  have "length (fetchEarthquakeData ?d) = card (eventKey ` set (mergeable ?d))"
    by blast
  with t u c show ?thesis by simp
qed

text \<open>
  Two reports with different (event time, epicenter name) pairs and the same key string
  \<open>a_b_c\<close>: they are merged into one event.
\<close>

theorem unique_events_by_pair_counterexample:
  "length (fetchEarthquakeData
      [intensityReport (asc ''a_b'') (asc ''c'') 40 None,
       intensityReport (asc ''a'') (asc ''b_c'') 40 None]) = 1
   \<and> mergeable [intensityReport (asc ''a_b'') (asc ''c'') 40 None,
                 intensityReport (asc ''a'') (asc ''b_c'') 40 None]
       = [intensityReport (asc ''a_b'') (asc ''c'') 40 None,
          intensityReport (asc ''a'') (asc ''b_c'') 40 None]
   \<and> eventTime (intensityReport (asc ''a_b'') (asc ''c'') 40 None)
       \<noteq> eventTime (intensityReport (asc ''a'') (asc ''b_c'') 40 None)"
  by (simp add: aggregation_defs)

text \<open>
  The maximum scale after one merge: the greater of the two when the entry is updated in
  place, the scale of the incoming report when the entry is replaced by it.
\<close>

lemma mergeReports_maxScale:
  assumes "mergeReports existingEq eq = Inr v"
    and "earthquake existingEq = Some ee" and "maxScale ee = Some a"
    and "earthquake eq = Some ie" and "maxScale ie = Some b"
  shows "\<exists>ve. earthquake v = Some ve \<and>
           maxScale ve = (if points existingEq = None \<and> points eq \<noteq> None
                          then Some b else Some (max a b))"
  using assms
  by (auto simp: mergeReports_def mergeEarthquake_def Let_def
      split: option.splits sum.splits if_splits)

text \<open>
  Claim C2, evaluated on the code. The first report of a key has maximum scale 70 and no
  points, the second has maximum scale 60 and points: the entry becomes the second
  report, the comparison of the scales updates the replaced object, and the event has
  maximum scale 60, below the maximum 70 of the reports of its key.
\<close>

theorem maxScale_after_points_replacement:
  "map ev_maxScale (fetchEarthquakeData
      [intensityReport tohoku_time sanriku_oki 70 None,
       intensityReport tohoku_time sanriku_oki 60 (Some [point_a])]) = [Some 60]
   \<and> eventKey (intensityReport tohoku_time sanriku_oki 70 None)
       = eventKey (intensityReport tohoku_time sanriku_oki 60 (Some [point_a]))
   \<and> mergeable [intensityReport tohoku_time sanriku_oki 70 None,
                 intensityReport tohoku_time sanriku_oki 60 (Some [point_a])]
       = [intensityReport tohoku_time sanriku_oki 70 None,
          intensityReport tohoku_time sanriku_oki 60 (Some [point_a])]"
  by (simp add: aggregation_defs)









section \<open>Properties of the tsunami pass\<close>


lemma keysFrom_append: "keysFrom acc (xs @ ys) = keysFrom (keysFrom acc xs) ys"
  by (induction xs arbitrary: acc) auto

lemma addForecast_char:
  assumes "addForecast fbg f = Inr fbg'"
  shows "MajorWarning fbg' = keysFrom (MajorWarning fbg) (gradeNames (asc ''MajorWarning'') [f])
       \<and> Warning fbg' = keysFrom (Warning fbg) (gradeNames (asc ''Warning'') [f])
       \<and> Advisory fbg' = keysFrom (Advisory fbg) (gradeNames (asc ''Advisory'') [f])"
  using assms
  by (auto simp: addForecast_def gradeNames_def set_add_def split: if_splits)

lemma gradeNames_Cons: "gradeNames g (f # fs) = gradeNames g [f] @ gradeNames g fs"
  by (simp add: gradeNames_def)

lemma collectForecasts_char:
  "collectForecasts fbg fs = Inr fbg' \<Longrightarrow>
     MajorWarning fbg' = keysFrom (MajorWarning fbg) (gradeNames (asc ''MajorWarning'') fs)
   \<and> Warning fbg' = keysFrom (Warning fbg) (gradeNames (asc ''Warning'') fs)
   \<and> Advisory fbg' = keysFrom (Advisory fbg) (gradeNames (asc ''Advisory'') fs)"
proof (induction fs arbitrary: fbg)
  case Nil
  then show ?case by (simp add: gradeNames_def)
next
  case (Cons f fs)
  from Cons.prems obtain fbg1 where
    s: "addForecast fbg f = Inr fbg1" "collectForecasts fbg1 fs = Inr fbg'"
    by (auto split: sum.splits)
  show ?case
    using addForecast_char [OF s(1)] Cons.IH [OF s(2)]
    by (simp add: gradeNames_Cons [of _ f fs] keysFrom_append)
qed

lemma addForecast_ok:
  "grade f \<notin> set object_prototype_names \<Longrightarrow> \<exists>fbg'. addForecast fbg f = Inr fbg'"
  by (simp add: addForecast_def)

lemma collectForecasts_ok:
  "\<forall>f \<in> set fs. grade f \<notin> set object_prototype_names \<Longrightarrow>
   \<exists>fbg'. collectForecasts fbg fs = Inr fbg'"
proof (induction fs arbitrary: fbg)
  case Nil
  then show ?case by simp
next
  case (Cons f fs)
  from Cons.prems addForecast_ok [of f fbg] obtain fbg1 where "addForecast fbg f = Inr fbg1"
    by auto
  with Cons show ?case by simp
qed


lemma find_append_case:
  "find P (xs @ ys) = (case find P xs of None \<Rightarrow> find P ys | Some x \<Rightarrow> Some x)"
  by (induction xs) auto

lemma find_filter_conj: "find P (filter Q xs) = find (\<lambda>x. Q x \<and> P x) xs"
  by (induction xs) auto

lemma tsunamiInfoStep_skip:
  "forecastsOf info = None \<Longrightarrow> tsunamiInfoStep m info = Inr m"
  by (simp add: tsunamiInfoStep_def forecastsOf_def split: option.splits)

lemma tsunamiInfoStep_set:
  assumes "forecastsOf info = Some fs" "\<forall>f \<in> set fs. grade f \<notin> set object_prototype_names"
  shows "\<exists>d. tsunamiInfoStep m info = Inr (map_set (eventId info) d m) \<and> isDetailOf d fs"
proof -
  from collectForecasts_ok [OF assms(2)] obtain fbg where
    c: "collectForecasts \<lparr>MajorWarning = [], Warning = [], Advisory = []\<rparr> fs = Inr fbg" by blast
  from collectForecasts_char [OF c]
  have "isDetailOf \<lparr>highestGrade = computeHighestGrade fbg, areas = fbg\<rparr> fs"
    by (simp add: isDetailOf_def computeHighestGrade_def)
  moreover have "tsunamiInfoStep m info
      = Inr (map_set (eventId info) \<lparr>highestGrade = computeHighestGrade fbg, areas = fbg\<rparr> m)"
  proof -
    from assms(1) obtain t where "tsunami info = Some t" "forecasts t = Some fs"
      by (auto simp: forecastsOf_def split: option.splits)
    with c show ?thesis by (simp add: tsunamiInfoStep_def)
  qed
  ultimately show ?thesis by blast
qed

lemma tsunamiInfoLoop_char:
  assumes "\<forall>d \<in> set infos. \<forall>fs. forecastsOf d = Some fs \<longrightarrow>
             (\<forall>f \<in> set fs. grade f \<notin> set object_prototype_names)"
  shows "\<exists>m'. tsunamiInfoLoop m infos = Inr m' \<and>
     (\<forall>k. case find (\<lambda>d. forecastsOf d \<noteq> None \<and> eventId d = k) (rev infos) of
            None \<Rightarrow> map_get m' k = map_get m k
          | Some info \<Rightarrow> \<exists>d. map_get m' k = Some d \<and> isDetailOf d (the (forecastsOf info)))"
  using assms
proof (induction infos arbitrary: m)
  case Nil
  then show ?case by simp
next
  case (Cons info infos)
  let ?P = "\<lambda>k d. forecastsOf d \<noteq> None \<and> eventId d = k"
  from Cons.prems have rest: "\<forall>d \<in> set infos. \<forall>fs. forecastsOf d = Some fs \<longrightarrow>
             (\<forall>f \<in> set fs. grade f \<notin> set object_prototype_names)" by simp
  show ?case
  proof (cases "forecastsOf info")
    case None
    from Cons.IH [OF rest, of m] obtain m' where
      m': "tsunamiInfoLoop m infos = Inr m'"
          "\<forall>k. case find (?P k) (rev infos) of
            None \<Rightarrow> map_get m' k = map_get m k
          | Some info \<Rightarrow> \<exists>d. map_get m' k = Some d \<and> isDetailOf d (the (forecastsOf info))"
      by blast
    have "case find (?P k) (rev (info # infos)) of
            None \<Rightarrow> map_get m' k = map_get m k
          | Some info \<Rightarrow> \<exists>d. map_get m' k = Some d \<and> isDetailOf d (the (forecastsOf info))" for k
      using m'(2) [rule_format, of k] None
      by (simp add: find_append_case split: option.splits)
    then show ?thesis using m'(1) None by (simp add: tsunamiInfoStep_skip)
  next
    case (Some fs)
    with Cons.prems have "\<forall>f \<in> set fs. grade f \<notin> set object_prototype_names" by simp
    from tsunamiInfoStep_set [OF Some this, of m] obtain d where
      d: "tsunamiInfoStep m info = Inr (map_set (eventId info) d m)" "isDetailOf d fs" by blast
    let ?m1 = "map_set (eventId info) d m"
    from Cons.IH [OF rest, of ?m1] obtain m' where
      m': "tsunamiInfoLoop ?m1 infos = Inr m'"
          "\<forall>k. case find (?P k) (rev infos) of
            None \<Rightarrow> map_get m' k = map_get ?m1 k
          | Some info \<Rightarrow> \<exists>d. map_get m' k = Some d \<and> isDetailOf d (the (forecastsOf info))"
      by blast
    have "case find (?P k) (rev (info # infos)) of
            None \<Rightarrow> map_get m' k = map_get m k
          | Some info \<Rightarrow> \<exists>d. map_get m' k = Some d \<and> isDetailOf d (the (forecastsOf info))" for k
      using m'(2) [rule_format, of k] Some d(2)
      by (auto simp: find_append_case map_get_map_set split: option.splits)
    then show ?thesis using m'(1) d(1) by simp
  qed
qed


text \<open>
  Claim C4, as the code has it. Every report of code 552 that has a forecast list writes
  the detail of its correlation id anew, from its own forecasts only. So, when no grade
  names an inherited property, the pass succeeds, and the detail of a correlation id is
  the detail of the last report of that id in fetch order: per grade the area names of
  that report, and as highest grade the first of MajorWarning, Warning, Advisory that
  has a name, else None.
\<close>

theorem tsunami_detail_of_last_report:
  assumes "\<forall>d \<in> set data. code d = 552 \<longrightarrow>
             (\<forall>fs. forecastsOf d = Some fs \<longrightarrow>
                (\<forall>f \<in> set fs. grade f \<notin> set object_prototype_names))"
  shows "\<exists>tmap. tsunamiDetailsMap data = Inr tmap \<and>
     (\<forall>k. case lastForecasts data k of
            None \<Rightarrow> map_get tmap k = None
          | Some fs \<Rightarrow> \<exists>d. map_get tmap k = Some d \<and> isDetailOf d fs)"
proof -
  let ?infos = "filter (\<lambda>d. code d = 552) data"
  from assms have "\<forall>d \<in> set ?infos. \<forall>fs. forecastsOf d = Some fs \<longrightarrow>
             (\<forall>f \<in> set fs. grade f \<notin> set object_prototype_names)" by auto
  from tsunamiInfoLoop_char [OF this, of "[]"] obtain tmap where
    t: "tsunamiInfoLoop [] ?infos = Inr tmap"
       "\<forall>k. case find (\<lambda>d. forecastsOf d \<noteq> None \<and> eventId d = k) (rev ?infos) of
            None \<Rightarrow> map_get tmap k = map_get [] k
          | Some info \<Rightarrow> \<exists>d. map_get tmap k = Some d \<and> isDetailOf d (the (forecastsOf info))"
    by blast
  have "case lastForecasts data k of
            None \<Rightarrow> map_get tmap k = None
          | Some fs \<Rightarrow> \<exists>d. map_get tmap k = Some d \<and> isDetailOf d fs" for k
    using t(2) [rule_format, of k]
    by (auto simp: lastForecasts_def rev_filter find_filter_conj map_get_def
        split: option.splits dest: find_Some_iff [THEN iffD1])
  with t(1) show ?thesis by (simp add: tsunamiDetailsMap_def)
qed

theorem tsunami_detail_of_last_report_witness:
  "\<exists>tmap d. tsunamiDetailsMap
        [forecastReport (asc ''E1'') [(asc ''Advisory'', asc ''X''), (asc ''Warning'', asc ''Y'')]]
        = Inr tmap
     \<and> map_get tmap (asc ''E1'') = Some d
     \<and> highestGrade d = asc ''Warning''
     \<and> MajorWarning (areas d) = []
     \<and> Warning (areas d) = [asc ''Y'']
     \<and> Advisory (areas d) = [asc ''X'']"
proof -
  let ?fs = "[\<lparr>grade = asc ''Advisory'', area_name = Some (asc ''X'')\<rparr>,
              \<lparr>grade = asc ''Warning'', area_name = Some (asc ''Y'')\<rparr>]"
  let ?data = "[forecastReport (asc ''E1'')
                  [(asc ''Advisory'', asc ''X''), (asc ''Warning'', asc ''Y'')]]"
  have h: "\<forall>d \<in> set ?data. code d = 552 \<longrightarrow>
             (\<forall>fs. forecastsOf d = Some fs \<longrightarrow>
                (\<forall>f \<in> set fs. grade f \<notin> set object_prototype_names))"
    by (simp add: forecastReport_def forecastsOf_def object_prototype_names_def)
  have l: "lastForecasts ?data (asc ''E1'') = Some ?fs"
    by (simp add: lastForecasts_def forecastReport_def forecastsOf_def eventId_def
        String_or_def truthy_def)
  from tsunami_detail_of_last_report [OF h] obtain tmap where
    t: "tsunamiDetailsMap ?data = Inr tmap"
       "\<forall>k. case lastForecasts ?data k of
            None \<Rightarrow> map_get tmap k = None
          | Some fs \<Rightarrow> \<exists>d. map_get tmap k = Some d \<and> isDetailOf d fs"
    by blast
  from t(2) [rule_format, of "asc ''E1''"] l obtain d where
    d: "map_get tmap (asc ''E1'') = Some d" "isDetailOf d ?fs" by auto
  from d(2) have "highestGrade d = asc ''Warning'' \<and> MajorWarning (areas d) = []
     \<and> Warning (areas d) = [asc ''Y''] \<and> Advisory (areas d) = [asc ''X'']"
    by (simp add: isDetailOf_def gradeNames_def truthy_def)
  with t(1) d(1) show ?thesis by blast
qed

text \<open>
  Two reports of one correlation id, the first with a Warning for \<open>Y\<close>, the second with
  an Advisory for \<open>X\<close>: the detail holds the second report only, and the highest grade
  is Advisory.
\<close>

theorem tsunami_union_counterexample:
  "tsunamiDetailsMap
     [forecastReport (asc ''E1'') [(asc ''Warning'', asc ''Y'')],
      forecastReport (asc ''E1'') [(asc ''Advisory'', asc ''X'')]]
   = Inr [(asc ''E1'',
           \<lparr>highestGrade = asc ''Advisory'',
            areas = \<lparr>MajorWarning = [], Warning = [], Advisory = [asc ''X'']\<rparr>\<rparr>)]"
  by (simp add: tsunamiDetailsMap_def tsunamiInfoStep_def forecastReport_def addForecast_def
      computeHighestGrade_def set_add_def eventId_def String_or_def truthy_def)

section \<open>Properties of the event identifier\<close>












section \<open>Properties of the readings\<close>

text \<open>
  Claim C6, as the code has it. The claim is stated for a key that is not empty, a user
  dictionary that has no entry named \<open>hasOwnProperty\<close>, and, where the base dictionary
  is read, a name of the key that is not the name of an inherited property, with or
  without its annotations. Then: an entry of the user dictionary for that exact key is
  the result, whatever its value (the empty string too) and whatever the base dictionary
  holds; when there is no such entry and neither the name nor the name without its
  annotations is a key of the base dictionary, the result is the empty string; and the
  lookup never throws. For the empty key the result is the empty string before any
  dictionary is read.
\<close>

theorem getKana_override_first:
  assumes "kanji \<noteq> []" and "\<not> hasOwnProperty manual (asc ''hasOwnProperty'')"
  shows "(map_of manual kanji = Some v \<longrightarrow> getKana manual base kanji = Inr v)
     \<and> (map_of manual kanji = None
          \<and> map_of base (municipalityOf kanji) = None
          \<and> map_of base (stripAnnotations (municipalityOf kanji)) = None
          \<and> municipalityOf kanji \<notin> set object_prototype_names
          \<and> stripAnnotations (municipalityOf kanji) \<notin> set object_prototype_names
          \<longrightarrow> getKana manual base kanji = Inr [])
     \<and> (municipalityOf kanji \<notin> set object_prototype_names
          \<and> stripAnnotations (municipalityOf kanji) \<notin> set object_prototype_names
          \<longrightarrow> (\<exists>reading. getKana manual base kanji = Inr reading))
     \<and> getKana manual base [] = Inr []"
proof -
  have a: "getKana manual base kanji = Inr v" if "map_of manual kanji = Some v"
    using that assms by (simp add: getKana_def hasOwnProperty_def)
  have b: "getKana manual base kanji = Inr []"
    if "map_of manual kanji = None" "map_of base (municipalityOf kanji) = None"
      "map_of base (stripAnnotations (municipalityOf kanji)) = None"
      "municipalityOf kanji \<notin> set object_prototype_names"
      "stripAnnotations (municipalityOf kanji) \<notin> set object_prototype_names"
    using that assms
    by (simp add: getKana_def hasOwnProperty_def dict_get_def js_truthy_def Let_def
        katakanaToHiragana_def)
  have c: "\<exists>reading. getKana manual base kanji = Inr reading"
    if "municipalityOf kanji \<notin> set object_prototype_names"
      "stripAnnotations (municipalityOf kanji) \<notin> set object_prototype_names"
    using that assms
    by (auto simp: getKana_def hasOwnProperty_def dict_get_def js_truthy_def Let_def
        split: option.splits)
  have d: "getKana manual base [] = Inr []" by (simp add: getKana_def)
  show ?thesis using a b c d by blast
qed

theorem getKana_override_first_witness:
  "getKana [(fukuoka_sawara_key, [])] [(fukuoka_sawara, fukuoka_sawara_kana)]
     fukuoka_sawara_key = Inr []
   \<and> getKana [] [(fukuoka_sawara, fukuoka_sawara_kana)] fukuoka_sawara_key
       = Inr [0x3075, 0x304F, 0x304A, 0x304B, 0x3057, 0x3055, 0x308F, 0x3089, 0x304F]"
proof -
  let ?manual = "[(fukuoka_sawara_key, [])]"
  let ?base = "[(fukuoka_sawara, fukuoka_sawara_kana)]"
  have h1: "fukuoka_sawara_key \<noteq> []" by (simp add: fukuoka_sawara_key_def)
  have h2: "\<not> hasOwnProperty ?manual (asc ''hasOwnProperty'')"
    by (simp add: hasOwnProperty_def fukuoka_sawara_key_def)
  have h3: "map_of ?manual fukuoka_sawara_key = Some []" by simp
  from getKana_override_first [OF h1 h2, of "[]" ?base] h3
  have "getKana ?manual ?base fukuoka_sawara_key = Inr []" by blast
  moreover have "getKana [] ?base fukuoka_sawara_key
       = Inr [0x3075, 0x304F, 0x304A, 0x304B, 0x3057, 0x3055, 0x308F, 0x3089, 0x304F]"
    by (simp add: getKana_def hasOwnProperty_def fukuoka_sawara_key_def municipalityOf_def
        underscore_def dict_get_def js_truthy_def fukuoka_sawara_def fukuoka_sawara_kana_def
        katakanaToHiragana_def Let_def)
  ultimately show ?thesis by simp
qed

text \<open>
  Three lookups against the claim as it stands. A user dictionary with the entry \<open>x\<close>
  for the empty key: the lookup of the empty key gives the empty string, not the entry.
  The key \<open>x_constructor\<close> with empty dictionaries: the name is in no dictionary, and
  the lookup throws. A user dictionary with an entry named \<open>hasOwnProperty\<close> and an
  entry for the key \<open>k\<close>: the lookup of \<open>k\<close> throws.
\<close>

theorem getKana_empty_key_counterexample:
  "getKana [([], asc ''x'')] [] [] = Inr []
   \<and> map_of [([], asc ''x'')] [] = Some (asc ''x'')
   \<and> asc ''x'' \<noteq> []
   \<and> getKana [] [] (asc ''x_constructor'') = Inl TypeError
   \<and> getKana [(asc ''hasOwnProperty'', asc ''x''), (asc ''k'', asc ''v'')] [] (asc ''k'')
       = Inl TypeError"
  by (simp add: getKana_def hasOwnProperty_def municipalityOf_def underscore_def
      dict_get_def js_truthy_def object_prototype_names_def Let_def)

section \<open>Properties of the municipality resolver\<close>


lemma rx_lazy_dots_nonempty: "rx_lazy_dots k s = Some m \<Longrightarrow> m \<noteq> []"
  by (cases s) (auto split: if_splits option.splits)

lemma truthy_the: "truthy x \<Longrightarrow> the x \<noteq> []"
  by (cases x) (auto simp: truthy_def)

lemma resolve_shape:
  "\<exists>m. m \<noteq> [] \<and> snd (resolveMunicipality keys rawAddress prefecture)
      = (if prefecture = [] then unknown_text else prefecture) @ [underscore] @ m"
proof (cases "rawAddress = [] \<or> prefecture = []")
  case True
  then show ?thesis
    by (auto simp: resolveMunicipality_def unknown_point_text_def)
next
  case False
  then show ?thesis
    by (auto simp: resolveMunicipality_def Let_def cityAndWardMatch_def gunMatch_def
        cityTownVillageMatch_def
        dest: rx_lazy_dots_nonempty truthy_the split: option.splits)
qed

lemma includes_str_set: "includes_str s t \<Longrightarrow> set t \<subseteq> set s"
proof (induction s)
  case Nil
  then show ?case by simp
next
  case (Cons c cs)
  from Cons.prems have "startsWith (c # cs) t \<or> includes_str cs t" by simp
  then show ?case
  proof
    assume "startsWith (c # cs) t"
    then have "t = take (length t) (c # cs)" by (simp add: startsWith_def)
    then have "set t \<subseteq> set (c # cs)" by (metis set_take_subset)
    then show ?thesis .
  next
    assume "includes_str cs t"
    with Cons.IH show ?thesis by auto
  qed
qed

lemma directMatch_no_space:
  assumes "0x20 \<notin> set rawAddress"
  shows "directMatch keys rawAddress = find (\<lambda>key. includes_str rawAddress key \<and> endsWith rawAddress key) keys"
proof -
  have "\<not> includes_str rawAddress (key @ [0x20])" for key
    using includes_str_set [of rawAddress "key @ [0x20]"] assms by auto
  then show ?thesis by (simp add: directMatch_def)
qed

lemma directMatch_not_truthy:
  assumes "0x20 \<notin> set rawAddress" "\<forall>k \<in> set keys. k \<noteq> [] \<longrightarrow> \<not> endsWith rawAddress k"
  shows "\<not> truthy (directMatch keys rawAddress)"
proof (cases "directMatch keys rawAddress")
  case None
  then show ?thesis by (simp add: truthy_def)
next
  case (Some k)
  then have "k \<in> set keys \<and> endsWith rawAddress k"
    unfolding directMatch_no_space [OF assms(1)]
    by (auto simp: find_Some_iff)
  with assms(2) have "k = []" by auto
  with Some show ?thesis by (simp add: truthy_def)
qed

lemma find_first:
  assumes "x \<in> set xs" and "P x" and "\<forall>y \<in> set (takeWhile (\<lambda>y. y \<noteq> x) xs). \<not> P y"
  shows "find P xs = Some x"
  using assms
proof (induction xs)
  case Nil
  then show ?case by simp
next
  case (Cons a xs)
  show ?case
  proof (cases "a = x")
    case True
    with Cons.prems(2) show ?thesis by simp
  next
    case False
    with Cons.prems have "x \<in> set xs" "\<not> P a"
      "\<forall>y \<in> set (takeWhile (\<lambda>y. y \<noteq> x) xs). \<not> P y" by auto
    with Cons.IH Cons.prems(2) show ?thesis by simp
  qed
qed

lemma find_sorted_longest:
  assumes "x \<in> set keys" "P x" "\<forall>k \<in> set keys. P k \<longrightarrow> length k < length x \<or> k = x"
  shows "find P (sortedKanaKeys keys) = Some x"
proof -
  let ?xs = "sortedKanaKeys keys"
  have setxs: "set ?xs = set keys" by (simp add: sortedKanaKeys_def)
  have srt: "sorted (map (\<lambda>k. - int (length k)) ?xs)" by (simp add: sortedKanaKeys_def)
  from assms(1,2) setxs have "find P ?xs \<noteq> None" by (auto simp: find_None_iff)
  then obtain y where y: "find P ?xs = Some y" by blast
  then obtain i where i: "i < length ?xs" "P (?xs ! i)" "y = ?xs ! i" "\<forall>j<i. \<not> P (?xs ! j)"
    by (auto simp: find_Some_iff)
  from assms(1) setxs obtain j where j: "j < length ?xs" "?xs ! j = x"
    by (metis in_set_conv_nth)
  have "y = x"
  proof (rule ccontr)
    assume neq: "y \<noteq> x"
    have "y \<in> set keys" using i(1,3) setxs by (metis nth_mem)
    with assms(3) i(2,3) neq have lt: "length y < length x" by auto
    have "\<not> j < i" using i(4) j(2) assms(2) by auto
    moreover have "j \<noteq> i" using neq i(3) j(2) by auto
    ultimately have "i < j" by simp
    with srt j(1) have "(map (\<lambda>k. - int (length k)) ?xs) ! i \<le> (map (\<lambda>k. - int (length k)) ?xs) ! j"
      by (simp add: sorted_iff_nth_mono del: nth_map)
    with i(1) j(1) have "- int (length (?xs ! i)) \<le> - int (length (?xs ! j))" by simp
    with i(3) j(2) lt show False by simp
  qed
  with y show ?thesis by simp
qed


lemmas place_defs = hokkaido_def kushiro_shi_def miyagi_ken_def sendai_miyagino_ku_def
  sorachi_nanporo_cho_def tochigi_ken_def tochigi_shi_def irifune_cho_def

lemmas resolver_defs = stripPrefecture_def startsWith_def irregular_prefectures_def
  cityAndWardMatch_def gunMatch_def cityTownVillageMatch_def rx_end_def
  is_line_terminator_def shi_def ku_def machi_def mura_def gun_def ken_def

lemma example_direct:
  assumes "kushiro_shi \<in> set keys"
    and "\<forall>k \<in> set (takeWhile (\<lambda>k. k \<noteq> kushiro_shi) keys). \<not> endsWith (hokkaido @ kushiro_shi) k"
  shows "resolveMunicipality keys (hokkaido @ kushiro_shi) hokkaido
           = (Direct, hokkaido @ [underscore] @ kushiro_shi)"
proof -
  let ?a = "hokkaido @ kushiro_shi"
  have ns: "0x20 \<notin> set ?a" by (simp add: place_defs)
  have p: "includes_str ?a kushiro_shi \<and> endsWith ?a kushiro_shi"
    by (simp add: place_defs startsWith_def endsWith_def)
  have "find (\<lambda>key. includes_str ?a key \<and> endsWith ?a key) keys = Some kushiro_shi"
    using assms(1) p assms(2) by (intro find_first) auto
  then have "directMatch keys ?a = Some kushiro_shi"
    by (simp add: directMatch_no_space [OF ns])
  moreover have "kushiro_shi \<noteq> []" "?a \<noteq> []" "hokkaido \<noteq> []" by (simp_all add: place_defs)
  ultimately show ?thesis by (simp add: resolveMunicipality_def truthy_def)
qed

lemma example_city_ward:
  assumes "\<forall>k \<in> set keys. k \<noteq> [] \<longrightarrow> \<not> endsWith sendai_miyagino_ku k"
  shows "resolveMunicipality keys sendai_miyagino_ku miyagi_ken
           = (CityWard, miyagi_ken @ [underscore] @ sendai_miyagino_ku)"
proof -
  have ns: "0x20 \<notin> set sendai_miyagino_ku" by (simp add: place_defs)
  have d: "\<not> truthy (directMatch keys sendai_miyagino_ku)"
    using directMatch_not_truthy [OF ns assms] .
  have r: "stripPrefecture sendai_miyagino_ku miyagi_ken = sendai_miyagino_ku"
    by (simp add: place_defs resolver_defs)
  have m: "cityAndWardMatch sendai_miyagino_ku = Some sendai_miyagino_ku"
    by (simp add: place_defs resolver_defs)
  have "sendai_miyagino_ku \<noteq> []" "miyagi_ken \<noteq> []" by (simp_all add: place_defs)
  then show ?thesis using d r m by (simp add: resolveMunicipality_def)
qed

lemma example_county_town:
  assumes "\<forall>k \<in> set keys. k \<noteq> [] \<longrightarrow> \<not> endsWith (hokkaido @ sorachi_nanporo_cho) k"
  shows "resolveMunicipality keys (hokkaido @ sorachi_nanporo_cho) hokkaido
           = (CountyTown, hokkaido @ [underscore] @ sorachi_nanporo_cho)"
proof -
  let ?a = "hokkaido @ sorachi_nanporo_cho"
  have ns: "0x20 \<notin> set ?a" by (simp add: place_defs)
  have d: "\<not> truthy (directMatch keys ?a)"
    using directMatch_not_truthy [OF ns assms] .
  have r: "stripPrefecture ?a hokkaido = sorachi_nanporo_cho"
    by (simp add: stripPrefecture_def startsWith_def)
  have m1: "cityAndWardMatch sorachi_nanporo_cho = None"
    by (simp add: place_defs resolver_defs)
  have m2: "gunMatch sorachi_nanporo_cho = Some sorachi_nanporo_cho"
    by (simp add: place_defs resolver_defs)
  have "?a \<noteq> []" "hokkaido \<noteq> []" by (simp_all add: place_defs)
  then show ?thesis using d r m1 m2 by (simp add: resolveMunicipality_def)
qed

lemma example_dict_prefix:
  assumes "tochigi_shi \<in> set keys"
    and "\<forall>k \<in> set keys. k \<noteq> [] \<longrightarrow> \<not> endsWith (tochigi_shi @ irifune_cho) k"
    and "\<forall>k \<in> set keys. length k > 3 \<longrightarrow> \<not> startsWith (tochigi_shi @ irifune_cho) k"
  shows "resolveMunicipality keys (tochigi_shi @ irifune_cho) tochigi_ken
           = (DictPrefix, tochigi_ken @ [underscore] @ tochigi_shi)"
proof -
  let ?a = "tochigi_shi @ irifune_cho"
  have ns: "0x20 \<notin> set ?a" by (simp add: place_defs)
  have d: "\<not> truthy (directMatch keys ?a)"
    using directMatch_not_truthy [OF ns assms(2)] .
  have r: "stripPrefecture ?a tochigi_ken = ?a"
    by (simp add: place_defs resolver_defs)
  have m1: "cityAndWardMatch ?a = None"
    by (simp add: place_defs resolver_defs)
  have m2: "gunMatch ?a = None"
    by (simp add: place_defs resolver_defs)
  have p: "startsWith ?a tochigi_shi" by (simp add: startsWith_def)
  have len: "length tochigi_shi = 3" by (simp add: tochigi_shi_def)
  have "length k < length tochigi_shi \<or> k = tochigi_shi"
    if "k \<in> set keys" "startsWith ?a k" for k
  proof -
    from that assms(3) have "length k \<le> 3" by (meson not_le_imp_less)
    show ?thesis
    proof (cases "length k = 3")
      case True
      from that(2) have "k = take (length k) ?a" by (simp add: startsWith_def)
      with True len show ?thesis by simp
    next
      case False
      with \<open>length k \<le> 3\<close> len show ?thesis by simp
    qed
  qed
  then have "find (startsWith ?a) (sortedKanaKeys keys) = Some tochigi_shi"
    using assms(1) p by (intro find_sorted_longest) auto
  then have f: "forwardMatch keys ?a = Some tochigi_shi"
    by (simp add: forwardMatch_def)
  have "?a \<noteq> []" "tochigi_ken \<noteq> []" "tochigi_shi \<noteq> []" by (simp_all add: place_defs)
  then show ?thesis using d r m1 m2 f by (simp add: resolveMunicipality_def truthy_def)
qed


text \<open>
  Claim C7, as the code has it. The result of each example depends on the other keys of
  the dictionary too. The first example holds when no key before the key named is a
  suffix of the address; the second and the third when no key but the empty one is a
  suffix of the address; the fourth when moreover no key longer than the key named is a
  prefix of the address. Each result comes from the rule the example names.
\<close>

theorem municipality_examples:
  "(kushiro_shi \<in> set keys
      \<and> (\<forall>k \<in> set (takeWhile (\<lambda>k. k \<noteq> kushiro_shi) keys).
            \<not> endsWith (hokkaido @ kushiro_shi) k)
      \<longrightarrow> resolveMunicipality keys (hokkaido @ kushiro_shi) hokkaido
            = (Direct, hokkaido @ [underscore] @ kushiro_shi))
   \<and> ((\<forall>k \<in> set keys. k \<noteq> [] \<longrightarrow> \<not> endsWith sendai_miyagino_ku k)
      \<longrightarrow> resolveMunicipality keys sendai_miyagino_ku miyagi_ken
            = (CityWard, miyagi_ken @ [underscore] @ sendai_miyagino_ku))
   \<and> ((\<forall>k \<in> set keys. k \<noteq> [] \<longrightarrow> \<not> endsWith (hokkaido @ sorachi_nanporo_cho) k)
      \<longrightarrow> resolveMunicipality keys (hokkaido @ sorachi_nanporo_cho) hokkaido
            = (CountyTown, hokkaido @ [underscore] @ sorachi_nanporo_cho))
   \<and> (tochigi_shi \<in> set keys
      \<and> (\<forall>k \<in> set keys. k \<noteq> [] \<longrightarrow> \<not> endsWith (tochigi_shi @ irifune_cho) k)
      \<and> (\<forall>k \<in> set keys. length k > 3 \<longrightarrow> \<not> startsWith (tochigi_shi @ irifune_cho) k)
      \<longrightarrow> resolveMunicipality keys (tochigi_shi @ irifune_cho) tochigi_ken
            = (DictPrefix, tochigi_ken @ [underscore] @ tochigi_shi))"
  using example_direct [of keys] example_city_ward [of keys] example_county_town [of keys]
    example_dict_prefix [of keys]
  by blast

theorem municipality_examples_witness:
  "resolveMunicipality [kushiro_shi, tochigi_shi] (hokkaido @ kushiro_shi) hokkaido
     = (Direct, hokkaido @ [underscore] @ kushiro_shi)
   \<and> resolveMunicipality [kushiro_shi, tochigi_shi] sendai_miyagino_ku miyagi_ken
     = (CityWard, miyagi_ken @ [underscore] @ sendai_miyagino_ku)
   \<and> resolveMunicipality [kushiro_shi, tochigi_shi] (hokkaido @ sorachi_nanporo_cho) hokkaido
     = (CountyTown, hokkaido @ [underscore] @ sorachi_nanporo_cho)
   \<and> resolveMunicipality [kushiro_shi, tochigi_shi] (tochigi_shi @ irifune_cho) tochigi_ken
     = (DictPrefix, tochigi_ken @ [underscore] @ tochigi_shi)"
proof -
  let ?keys = "[kushiro_shi, tochigi_shi]"
  have a: "kushiro_shi \<in> set ?keys" "tochigi_shi \<in> set ?keys" by simp_all
  have b: "\<forall>k \<in> set (takeWhile (\<lambda>k. k \<noteq> kushiro_shi) ?keys).
            \<not> endsWith (hokkaido @ kushiro_shi) k" by simp
  have c: "\<forall>k \<in> set ?keys. k \<noteq> [] \<longrightarrow> \<not> endsWith sendai_miyagino_ku k"
    by (simp add: place_defs endsWith_def)
  have d: "\<forall>k \<in> set ?keys. k \<noteq> [] \<longrightarrow> \<not> endsWith (hokkaido @ sorachi_nanporo_cho) k"
    by (simp add: place_defs endsWith_def)
  have e: "\<forall>k \<in> set ?keys. k \<noteq> [] \<longrightarrow> \<not> endsWith (tochigi_shi @ irifune_cho) k"
    by (simp add: place_defs endsWith_def)
  have f: "\<forall>k \<in> set ?keys. length k > 3 \<longrightarrow> \<not> startsWith (tochigi_shi @ irifune_cho) k"
    by (simp add: place_defs)
  from municipality_examples [of ?keys] a b c d e f show ?thesis by blast
qed

text \<open>
  The fourth example with a dictionary that has the key named and also the key of the
  end of the address: the first rule gives that other key.
\<close>

theorem municipality_examples_counterexample:
  "resolveMunicipality [tochigi_shi, irifune_cho] (tochigi_shi @ irifune_cho) tochigi_ken
     = (Direct, tochigi_ken @ [underscore] @ irifune_cho)
   \<and> tochigi_shi \<in> set [tochigi_shi, irifune_cho]
   \<and> irifune_cho \<noteq> tochigi_shi"
  by (simp add: resolveMunicipality_def directMatch_def startsWith_def endsWith_def
      truthy_def place_defs)

text \<open>
  Claim C8, as the code has it. For an address and a prefecture that are not empty, when
  no rule matches, the result is the prefecture, an underscore and the address as it
  came. An empty address or prefecture is replaced by a fixed text first. Every step of
  the resolver is a total operation on strings, and every result is a prefecture (or the
  fixed text), an underscore and a name that is not empty.
\<close>

theorem passthrough_when_no_rule_matches:
  assumes "rawAddress \<noteq> []" and "prefecture \<noteq> []"
    and "\<not> truthy (directMatch (map fst KANA_DICT) rawAddress)"
    and "cityAndWardMatch (stripPrefecture rawAddress prefecture) = None"
    and "gunMatch (stripPrefecture rawAddress prefecture) = None"
    and "\<not> truthy (forwardMatch (map fst KANA_DICT) (stripPrefecture rawAddress prefecture))"
    and "cityTownVillageMatch (stripPrefecture rawAddress prefecture) = None"
  shows "getMunicipality KANA_DICT rawAddress prefecture = prefecture @ [underscore] @ rawAddress
     \<and> fst (resolveMunicipality (map fst KANA_DICT) rawAddress prefecture) = Passthrough
     \<and> (\<forall>d a p. \<exists>m. m \<noteq> [] \<and>
           getMunicipality d a p = (if p = [] then unknown_text else p) @ [underscore] @ m)
     \<and> getMunicipality KANA_DICT [] prefecture = prefecture @ [underscore] @ unknown_point_text
     \<and> getMunicipality KANA_DICT rawAddress [] = unknown_text @ [underscore] @ rawAddress
     \<and> getMunicipality KANA_DICT [] [] = unknown_text @ [underscore] @ unknown_point_text"
proof -
  have "resolveMunicipality (map fst KANA_DICT) rawAddress prefecture
          = (Passthrough, prefecture @ [underscore] @ rawAddress)"
    using assms by (simp add: resolveMunicipality_def)
  moreover have "\<exists>m. m \<noteq> [] \<and>
      getMunicipality d a p = (if p = [] then unknown_text else p) @ [underscore] @ m" for d a p
    using resolve_shape [of "map fst d" a p] by (simp add: getMunicipality_def)
  moreover have "getMunicipality KANA_DICT [] prefecture
      = prefecture @ [underscore] @ unknown_point_text"
    using assms(2) by (simp add: getMunicipality_def resolveMunicipality_def)
  moreover have "getMunicipality KANA_DICT rawAddress [] = unknown_text @ [underscore] @ rawAddress"
    using assms(1) by (simp add: getMunicipality_def resolveMunicipality_def)
  moreover have "getMunicipality KANA_DICT [] []
      = unknown_text @ [underscore] @ unknown_point_text"
    by (simp add: getMunicipality_def resolveMunicipality_def)
  ultimately show ?thesis by (simp add: getMunicipality_def)
qed

theorem passthrough_when_no_rule_matches_witness:
  "getMunicipality [(kushiro_shi, [])] sanriku_oki tochigi_ken
     = tochigi_ken @ [underscore] @ sanriku_oki"
proof -
  let ?d = "[(kushiro_shi, [])]"
  have r: "stripPrefecture sanriku_oki tochigi_ken = sanriku_oki"
    by (simp add: place_defs resolver_defs sanriku_oki_def)
  have h1: "sanriku_oki \<noteq> []" by (simp add: sanriku_oki_def)
  have h2: "tochigi_ken \<noteq> []" by (simp add: tochigi_ken_def)
  have h3: "\<not> truthy (directMatch (map fst ?d) sanriku_oki)"
    by (simp add: directMatch_def startsWith_def truthy_def place_defs sanriku_oki_def)
  have h4: "cityAndWardMatch (stripPrefecture sanriku_oki tochigi_ken) = None"
    unfolding r by (simp add: resolver_defs sanriku_oki_def)
  have h5: "gunMatch (stripPrefecture sanriku_oki tochigi_ken) = None"
    unfolding r by (simp add: resolver_defs sanriku_oki_def)
  have h6: "\<not> truthy (forwardMatch (map fst ?d) (stripPrefecture sanriku_oki tochigi_ken))"
    unfolding r
    by (simp add: forwardMatch_def sortedKanaKeys_def startsWith_def truthy_def place_defs
        sanriku_oki_def)
  have h7: "cityTownVillageMatch (stripPrefecture sanriku_oki tochigi_ken) = None"
    unfolding r by (simp add: resolver_defs sanriku_oki_def)
  from passthrough_when_no_rule_matches [OF h1 h2 h3 h4 h5 h6 h7]
  show ?thesis by blast
qed

text \<open>
  The empty address with an empty dictionary: no rule matches, and the result carries
  the fixed text in place of the address.
\<close>

theorem passthrough_empty_address_counterexample:
  "getMunicipality [] [] tochigi_ken = tochigi_ken @ [underscore] @ unknown_point_text
   \<and> getMunicipality [] [] tochigi_ken \<noteq> tochigi_ken @ [underscore] @ []
   \<and> directMatch [] [] = None
   \<and> cityAndWardMatch (stripPrefecture [] tochigi_ken) = None
   \<and> gunMatch (stripPrefecture [] tochigi_ken) = None
   \<and> forwardMatch [] (stripPrefecture [] tochigi_ken) = None
   \<and> cityTownVillageMatch (stripPrefecture [] tochigi_ken) = None"
  by (simp add: getMunicipality_def resolveMunicipality_def directMatch_def forwardMatch_def
      sortedKanaKeys_def resolver_defs tochigi_ken_def unknown_point_text_def)

end
